theory Spec2Isabelle
  imports Main "HOL-Library.Sublist" "HOL-Library.Multiset"
begin


section \<open>Text\<close>

text \<open>
  The plugin works on JavaScript strings. They are modelled as \<^typ>\<open>string\<close>, a list of
  bytes holding the UTF-8 encoding of the text: every separator, marker and pattern the
  plugin looks for is ASCII, and an ASCII byte never occurs inside the encoding of
  another character, so splitting, joining and searching agree with the source on
  well-formed text.
\<close>

abbreviation NL :: char where
  "NL \<equiv> CHR 0x0A"

abbreviation CR :: char where
  "CR \<equiv> CHR 0x0D"

text \<open>\<^verbatim>\<open>s.split(d)\<close> for a separator of one character: never the empty array.\<close>

fun splitc :: "char \<Rightarrow> string \<Rightarrow> string list" where
  "splitc d [] = [[]]"
| "splitc d (c # cs) =
     (if c = d then [] # splitc d cs
      else (case splitc d cs of [] \<Rightarrow> [[c]] | l # ls \<Rightarrow> (c # l) # ls))"

text \<open>\<^verbatim>\<open>xs.join(sep)\<close>.\<close>

fun join :: "string \<Rightarrow> string list \<Rightarrow> string" where
  "join sep [] = []"
| "join sep [x] = x"
| "join sep (x # y # ys) = x @ sep @ join sep (y # ys)"

abbreviation split_nl :: "string \<Rightarrow> string list" where
  "split_nl \<equiv> splitc NL"

abbreviation join_nl :: "string list \<Rightarrow> string" where
  "join_nl \<equiv> join [NL]"

section \<open>Frontmatter\<close>

text \<open>
  A frontmatter object in iteration order. \<open>Scalar\<close> holds the text that the template
  literal \<^verbatim>\<open>${obj[key]}\<close> yields for a value that is not an array, \<open>Array\<close> the
  elements of an array.
\<close>

datatype fmvalue = Scalar string | Array "string list"

type_synonym frontmatter = "(string \<times> fmvalue) list"

fun fmEntry :: "string \<times> fmvalue \<Rightarrow> string" where
  "fmEntry (key, Array vs) =
     key @ '':'' @ [NL] @ concat (map (\<lambda>value. ''  - '' @ value @ [NL]) vs)"
| "fmEntry (key, Scalar v) = key @ '': '' @ v @ [NL]"

definition objToFrontmatter :: "frontmatter \<Rightarrow> string" where
  "objToFrontmatter obj = ''---'' @ [NL] @ concat (map fmEntry obj) @ ''---'' @ [NL]"

text \<open>
  Modelled from the spec: the frontmatter parser. The plugin reads frontmatter through
  the host's \<^verbatim>\<open>processFrontMatter\<close>, which is not part of the repository. The spec
  (FrontmatterCodec, Parse) says: if the first line is the delimiter, scan to the second
  delimiter line; the lines in between are \<^verbatim>\<open>key: value\<close> pairs, or \<^verbatim>\<open>key:\<close> followed
  by indented \<^verbatim>\<open>- value\<close> lines for arrays; everything else is body; no leading
  delimiter means empty frontmatter, and so does a block that never closes.
\<close>

definition isItem :: "string \<Rightarrow> bool" where
  "isItem l = prefix ''  - '' l"

function parseFmLines :: "string list \<Rightarrow> frontmatter" where
  "parseFmLines [] = []"
| "parseFmLines (l # ls) =
     (let key = takeWhile (\<lambda>c. c \<noteq> CHR '':'') l;
          rest = dropWhile (\<lambda>c. c \<noteq> CHR '':'') l
      in if isItem l \<or> rest = [] then parseFmLines ls
         else if tl rest = [] then
           (key, Array (map (drop 4) (takeWhile isItem ls))) # parseFmLines (dropWhile isItem ls)
         else if hd (tl rest) = CHR '' '' then (key, Scalar (tl (tl rest))) # parseFmLines ls
         else parseFmLines ls)"
  by pat_completeness auto
termination
  by (relation "measure length") (auto intro: le_imp_less_Suc length_dropWhile_le)

definition parseFrontmatter :: "string \<Rightarrow> frontmatter \<times> string list" where
  "parseFrontmatter text =
     (case split_nl text of
        [] \<Rightarrow> ([], [])
      | first # rest \<Rightarrow>
          if first = ''---'' \<and> ''---'' \<in> set rest
          then (parseFmLines (takeWhile (\<lambda>l. l \<noteq> ''---'') rest),
                tl (dropWhile (\<lambda>l. l \<noteq> ''---'') rest))
          else ([], first # rest))"

text \<open>
  The mappings that the textual form can carry: a key has no colon and no line break and
  does not look like an array item; a scalar and an array element have no line break.
\<close>

definition fmKeyOk :: "string \<Rightarrow> bool" where
  "fmKeyOk key = (CHR '':'' \<notin> set key \<and> NL \<notin> set key \<and> \<not> isItem key)"

fun fmValueOk :: "fmvalue \<Rightarrow> bool" where
  "fmValueOk (Scalar v) = (NL \<notin> set v)"
| "fmValueOk (Array vs) = list_all (\<lambda>v. NL \<notin> set v) vs"

definition fmOk :: "frontmatter \<Rightarrow> bool" where
  "fmOk obj = list_all (\<lambda>(key, v). fmKeyOk key \<and> fmValueOk v) obj"

text \<open>The lines that \<open>objToFrontmatter\<close> writes for one entry, without their line breaks.\<close>

definition itemLine :: "string \<Rightarrow> string" where
  "itemLine v = ''  - '' @ v"

fun entryLines :: "string \<times> fmvalue \<Rightarrow> string list" where
  "entryLines (key, Array vs) = (key @ '':'') # map itemLine vs"
| "entryLines (key, Scalar v) = [key @ '': '' @ v]"

text \<open>The mapping that \<open>parseFrontmatter\<close> reads, from the lines of the text.\<close>

definition fmOfLines :: "string list \<Rightarrow> frontmatter" where
  "fmOfLines ls =
     (case ls of
        [] \<Rightarrow> []
      | first # rest \<Rightarrow>
          if first = ''---'' \<and> ''---'' \<in> set rest
          then parseFmLines (takeWhile (\<lambda>l. l \<noteq> ''---'') rest) else [])"

section \<open>Trimming and searching\<close>

text \<open>
  The characters that \<^verbatim>\<open>trim\<close> strips from both ends of a string are the white space
  and line terminators of the language: U+0009 to U+000D, U+0020, U+00A0, U+1680, U+2000
  to U+200A, U+2028, U+2029, U+202F, U+205F, U+3000 and U+FEFF. \<open>ws_seqs\<close> lists their
  UTF-8 encodings.
\<close>

definition ws_seqs :: "string list" where
  "ws_seqs =
     [[CHR 0x09], [CHR 0x0A], [CHR 0x0B], [CHR 0x0C], [CHR 0x0D], [CHR 0x20],
      [CHR 0xC2, CHR 0xA0],
      [CHR 0xE1, CHR 0x9A, CHR 0x80],
      [CHR 0xE2, CHR 0x80, CHR 0x80], [CHR 0xE2, CHR 0x80, CHR 0x81],
      [CHR 0xE2, CHR 0x80, CHR 0x82], [CHR 0xE2, CHR 0x80, CHR 0x83],
      [CHR 0xE2, CHR 0x80, CHR 0x84], [CHR 0xE2, CHR 0x80, CHR 0x85],
      [CHR 0xE2, CHR 0x80, CHR 0x86], [CHR 0xE2, CHR 0x80, CHR 0x87],
      [CHR 0xE2, CHR 0x80, CHR 0x88], [CHR 0xE2, CHR 0x80, CHR 0x89],
      [CHR 0xE2, CHR 0x80, CHR 0x8A],
      [CHR 0xE2, CHR 0x80, CHR 0xA8], [CHR 0xE2, CHR 0x80, CHR 0xA9],
      [CHR 0xE2, CHR 0x80, CHR 0xAF],
      [CHR 0xE2, CHR 0x81, CHR 0x9F],
      [CHR 0xE3, CHR 0x80, CHR 0x80],
      [CHR 0xEF, CHR 0xBB, CHR 0xBF]]"

definition wsPrefix :: "string \<Rightarrow> string option" where
  "wsPrefix s = find (\<lambda>w. prefix w s) ws_seqs"

definition wsSuffix :: "string \<Rightarrow> string option" where
  "wsSuffix s = find (\<lambda>w. suffix w s) ws_seqs"

lemma wsPrefix_shorter: "wsPrefix s = Some w \<Longrightarrow> length s - length w < length s"
  by (auto simp: wsPrefix_def find_Some_iff ws_seqs_def prefix_def nth_Cons' split: if_splits)

lemma wsSuffix_shorter: "wsSuffix s = Some w \<Longrightarrow> length s - length w < length s"
  by (auto simp: wsSuffix_def find_Some_iff ws_seqs_def suffix_def nth_Cons' split: if_splits)

function trimStart :: "string \<Rightarrow> string" where
  "trimStart s = (case wsPrefix s of None \<Rightarrow> s | Some w \<Rightarrow> trimStart (drop (length w) s))"
  by pat_completeness auto
termination
  by (relation "measure length") (auto simp: wsPrefix_shorter)

function trimEnd :: "string \<Rightarrow> string" where
  "trimEnd s =
     (case wsSuffix s of None \<Rightarrow> s | Some w \<Rightarrow> trimEnd (take (length s - length w) s))"
  by pat_completeness auto
termination
  by (relation "measure length") (auto simp: wsSuffix_shorter)

definition trim :: "string \<Rightarrow> string" where
  "trim s = trimEnd (trimStart s)"

text \<open>\<^verbatim>\<open>s.includes(pat)\<close> and \<^verbatim>\<open>s.startsWith(pat)\<close>.\<close>

fun includesStr :: "string \<Rightarrow> string \<Rightarrow> bool" where
  "includesStr pat [] = (pat = [])"
| "includesStr pat (c # cs) = (prefix pat (c # cs) \<or> includesStr pat cs)"

definition startsWith :: "string \<Rightarrow> string \<Rightarrow> bool" where
  "startsWith pat s = prefix pat s"


section \<open>The diary merge\<close>

text \<open>
  The loop of \<^verbatim>\<open>updateDiaryFile\<close> that shifts lines off the front of the array until
  it has seen the delimiter twice, or the array is empty (\<open>cnt\<close> is the source's
  \<^verbatim>\<open>count\<close>).
\<close>

fun skipFrontmatter :: "nat \<Rightarrow> string list \<Rightarrow> string list" where
  "skipFrontmatter cnt [] = []"
| "skipFrontmatter cnt (firstElement # diaryContentsArr) =
     (if firstElement = ''---''
      then (if Suc cnt = 2 then diaryContentsArr
            else skipFrontmatter (Suc cnt) diaryContentsArr)
      else skipFrontmatter cnt diaryContentsArr)"

definition diaryBody :: "string \<Rightarrow> string \<Rightarrow> string list" where
  "diaryBody frontMatter data =
     (if frontMatter \<noteq> [] then skipFrontmatter 0 (split_nl data) else split_nl data)"

definition newEntriesOf :: "string list \<Rightarrow> string list \<Rightarrow> string list" where
  "newEntriesOf diaryContentsArr newDiaryEntries =
     filter (\<lambda>entry. entry \<notin> set diaryContentsArr) newDiaryEntries"

definition finalEntriesOf :: "string \<Rightarrow> string list \<Rightarrow> string list \<Rightarrow> string list" where
  "finalEntriesOf sort_order diaryContentsArr newDiaryEntries =
     (let newEntries = newEntriesOf diaryContentsArr newDiaryEntries
      in if sort_order = ''Old'' then diaryContentsArr @ newEntries
         else newEntries @ diaryContentsArr)"

text \<open>
  The callback given to \<^verbatim>\<open>vault.process\<close>: \<open>frontMatter\<close> is the variable of that
  name, the empty string when the parsed frontmatter has no key.
\<close>

definition diaryProcess :: "string \<Rightarrow> string \<Rightarrow> string list \<Rightarrow> string \<Rightarrow> string" where
  "diaryProcess sort_order frontMatter newDiaryEntries data =
     (let finalEntries = finalEntriesOf sort_order (diaryBody frontMatter data) newDiaryEntries
      in if frontMatter \<noteq> [] then frontMatter @ join_nl finalEntries
         else join_nl finalEntries)"

definition diaryFrontMatter :: "string \<Rightarrow> string" where
  "diaryFrontMatter data =
     (let fm = fst (parseFrontmatter data)
      in if fm \<noteq> [] then objToFrontmatter fm else [])"

text \<open>
  \<^verbatim>\<open>updateDiaryFile\<close> on the text of the diary file: \<open>None\<close> is a file that does not
  exist, and the result is the text written.
\<close>

definition updateDiaryFile :: "string \<Rightarrow> string list \<Rightarrow> string option \<Rightarrow> string" where
  "updateDiaryFile sort_order newDiaryEntries diaryFile =
     (case diaryFile of
        None \<Rightarrow> join_nl newDiaryEntries
      | Some data \<Rightarrow> diaryProcess sort_order (diaryFrontMatter data) newDiaryEntries data)"

section \<open>The review of an item\<close>

text \<open>
  Both extractions parse the description with the host's DOM and read the text of its
  \<^verbatim>\<open>p\<close> elements. \<open>pTexts\<close> is that part of the host: it maps the markup to the
  \<^verbatim>\<open>textContent\<close> of each \<^verbatim>\<open>p\<close> element, in document order.
\<close>

definition extractReview :: "(string \<Rightarrow> string list) \<Rightarrow> string \<Rightarrow> string option" where
  "extractReview pTexts descriptionHtml =
     (let reviewText =
            join [NL, NL] (filter (\<lambda>text. text \<noteq> [] \<and> trim text \<noteq> []) (pTexts descriptionHtml))
      in if includesStr ''Watched on'' reviewText then None else Some reviewText)"

definition extractReviewBlockquote :: "(string \<Rightarrow> string list) \<Rightarrow> string \<Rightarrow> string" where
  "extractReviewBlockquote pTexts descriptionHtml =
     (let paragraphs =
            filter (\<lambda>text. text \<noteq> [] \<and> text \<noteq> [] \<and> \<not> includesStr ''Watched on'' text)
              (map trim (pTexts descriptionHtml))
      in if length paragraphs > 0
         then join ([NL] @ ''>'' @ [NL]) (map (\<lambda>p. ''> '' @ p) paragraphs)
         else [])"


section \<open>The feed and the settings\<close>

text \<open>
  A text field of an item as the XML parser hands it over. The plugin builds the parser
  with its default options, under which text that reads as a number or as a boolean is
  turned into that value: the title of the film \<^verbatim>\<open>1917\<close> arrives as a number and not
  as a string. \<open>NonString\<close> is such a value, \<open>Undefined\<close> a field whose element is
  missing.
\<close>

datatype xmlText = Undefined | NonString | Str string

text \<open>
  One item of the feed, with the fields the plugin reads. A year or a rating that the
  feed does not give is \<open>None\<close>. \<open>memberRating\<close> counts half stars: the feed's ratings
  go from 0.5 to 5 in steps of 0.5.
\<close>

record RSSEntry =
  link :: string
  guid :: string
  pubDate :: string
  watchedDate :: "string option"
  rewatch :: string
  filmTitle :: xmlText
  filmYear :: "int option"
  memberRating :: "nat option"
  description :: string

text \<open>
  The value of \<^verbatim>\<open>jObj.rss.channel.item\<close>. Under its default options the parser gives
  an array only when the channel has several items; it gives the item itself, an object,
  when the channel has one, and nothing when it has none.
\<close>

datatype parsedItems = NoItem | SingleItem RSSEntry | ItemArray "RSSEntry list"

datatype CalloutStyle = CList | CListReview | CCallout | CCalloutPoster

record LetterboxdSettings =
  username :: string
  dateFormat :: string
  displayDateFormat :: string
  path :: string
  sort_order :: string
  callout :: CalloutStyle
  stars :: nat
  addReferenceId :: bool
  linkDate :: bool
  createMovieNotes :: bool
  movieNoteTemplate :: string

text \<open>
  The sort of \<^verbatim>\<open>syncLetterboxd\<close>: a stable sort by publication time, ascending when
  the setting is \<^verbatim>\<open>Old\<close> and descending otherwise. \<open>getTime\<close> is the host's
  \<^verbatim>\<open>new Date(s).getTime()\<close>, on dates it can read.
\<close>

definition sortItems :: "(string \<Rightarrow> int) \<Rightarrow> string \<Rightarrow> RSSEntry list \<Rightarrow> RSSEntry list" where
  "sortItems getTime so items =
     sort_key (\<lambda>item. if so = ''Old'' then getTime (pubDate item) else - getTime (pubDate item)) items"

section \<open>Rendering a diary entry\<close>

text \<open>
  What the plugin takes from its host: \<open>momentFormat d f\<close> is
  \<^verbatim>\<open>moment(d).format(f)\<close>, \<open>dateTime s\<close> is \<^verbatim>\<open>new Date(s).getTime()\<close> on a date it
  can read, \<open>paragraphTexts\<close> and \<open>imgSrc\<close> are the DOM's reading of a description: the
  text of its \<^verbatim>\<open>p\<close> elements, and the source of its first \<^verbatim>\<open>img\<close> element.
\<close>

record Host =
  momentFormat :: "string \<Rightarrow> string \<Rightarrow> string"
  dateTime :: "string \<Rightarrow> int"
  paragraphTexts :: "string \<Rightarrow> string list"
  imgSrc :: "string \<Rightarrow> string option"

datatype error = TypeError | BlankUsername

text \<open>\<^verbatim>\<open>s.split(pat)\<close> and \<^verbatim>\<open>s.replace(/pat/g, rep)\<close> for a literal \<open>pat\<close> that is not empty.\<close>

fun splitOn :: "string \<Rightarrow> string \<Rightarrow> string list" where
  "splitOn pat [] = [[]]"
| "splitOn pat (c # cs) =
     (if pat \<noteq> [] \<and> prefix pat (c # cs) then [] # splitOn pat (drop (length pat - 1) cs)
      else (case splitOn pat cs of [] \<Rightarrow> [[c]] | l # ls \<Rightarrow> (c # l) # ls))"

fun replaceAll :: "string \<Rightarrow> string \<Rightarrow> string \<Rightarrow> string" where
  "replaceAll pat rep [] = []"
| "replaceAll pat rep (c # cs) =
     (if pat \<noteq> [] \<and> prefix pat (c # cs) then rep @ replaceAll pat rep (drop (length pat - 1) cs)
      else c # replaceAll pat rep cs)"

definition decodeHtmlEntities :: "string \<Rightarrow> string" where
  "decodeHtmlEntities t =
     replaceAll [CHR 0xE2, CHR 0x80, CHR 0x99] [CHR 0x27]
       (replaceAll ''&#039;'' [CHR 0x27]
         (replaceAll ''&quot;'' [CHR 0x22]
           (replaceAll ''&gt;'' ''>''
             (replaceAll ''&lt;'' ''<''
               (replaceAll ''&amp;'' ''&'' t)))))"

text \<open>
  Numbers as the template literal prints them: the decimal digits, which is what
  JavaScript prints for a whole number of up to fifteen digits, the range in which a
  number holds every integer exactly.
\<close>

fun showNat :: "nat \<Rightarrow> string" where
  "showNat n =
     (if n < 10 then [char_of (48 + n)] else showNat (n div 10) @ [char_of (48 + n mod 10)])"

definition showInt :: "int \<Rightarrow> string" where
  "showInt i = (if i < 0 then CHR ''-'' # showNat (nat (- i)) else showNat (nat i))"

text \<open>A rating of \<open>h\<close> half stars is the number \<open>h / 2\<close>.\<close>

definition showRating :: "nat \<Rightarrow> string" where
  "showRating h = showNat (h div 2) @ (if h mod 2 \<noteq> 0 then ''.5'' else [])"

definition starParser :: "nat option \<Rightarrow> nat \<Rightarrow> string" where
  "starParser rating star =
     (case rating of
        None \<Rightarrow> []
      | Some h \<Rightarrow>
          if star = 1 then
            ''('' @ concat (replicate (h div 2) [CHR 0xE2, CHR 0x98, CHR 0x85]) @
              (if h mod 2 \<noteq> 0 then [CHR 0xC2, CHR 0xBD] else []) @ '')''
          else if star = 2 then
            ''('' @ concat (replicate (h div 2) [CHR 0xE2, CHR 0xAD, CHR 0x90]) @
              (if h mod 2 \<noteq> 0 then [CHR 0xC2, CHR 0xBD] else []) @ '')''
          else ''('' @ showRating h @ '' stars)'')"

definition getFormattedDate :: "Host \<Rightarrow> string \<Rightarrow> string \<Rightarrow> string" where
  "getFormattedDate host dateString fmt =
     (if fmt \<noteq> [] then momentFormat host dateString fmt else dateString)"

text \<open>The truth value of a string that may be undefined or null.\<close>

definition truthy :: "string option \<Rightarrow> bool" where
  "truthy v = (case v of None \<Rightarrow> False | Some s \<Rightarrow> s \<noteq> [])"

definition orEmpty :: "string option \<Rightarrow> string" where
  "orEmpty v = (case v of None \<Rightarrow> [] | Some s \<Rightarrow> s)"

text \<open>
  The date an entry shows, and whether it stands for a watch: the two branches on
  \<^verbatim>\<open>item['letterboxd:watchedDate']\<close>, shared by \<^verbatim>\<open>generateDiaryEntry\<close> and
  \<^verbatim>\<open>createOrUpdateMovieNote\<close>.
\<close>

definition displayDateOf :: "Host \<Rightarrow> LetterboxdSettings \<Rightarrow> RSSEntry \<Rightarrow> string" where
  "displayDateOf host settings item =
     (if truthy (watchedDate item) then
        (let formattedDateForLink =
               getFormattedDate host (orEmpty (watchedDate item)) (dateFormat settings);
             formattedDateForDisplay =
               getFormattedDate host (orEmpty (watchedDate item)) (displayDateFormat settings)
         in if linkDate settings then ''[['' @ formattedDateForLink @ '']]''
            else formattedDateForDisplay)
      else getFormattedDate host (pubDate item) (displayDateFormat settings))"

text \<open>
  The review of a diary entry: the text that \<^verbatim>\<open>extractReview\<close> returns, with the
  breaks between its paragraphs turned into quoted line breaks when it is not empty.
\<close>

definition reviewTextOf :: "Host \<Rightarrow> RSSEntry \<Rightarrow> string option" where
  "reviewTextOf host item =
     (case extractReview (paragraphTexts host) (description item) of
        None \<Rightarrow> None
      | Some r \<Rightarrow>
          if r \<noteq> [] then Some (join ([CR] @ '' > '' @ [CR] @ '' > '') (splitOn [NL, NL] r))
          else Some r)"

text \<open>The block reference of a callout: the third part of the guid, when the setting asks.\<close>

definition referenceOf :: "LetterboxdSettings \<Rightarrow> RSSEntry \<Rightarrow> string" where
  "referenceOf settings item =
     (if addReferenceId settings then
        '' ^letterboxd'' @
          (case drop 2 (splitc CHR ''-'' (guid item)) of
             [] \<Rightarrow> ''undefined''
           | part # _ \<Rightarrow> part)
      else [])"

definition generateDiaryEntry ::
    "Host \<Rightarrow> LetterboxdSettings \<Rightarrow> RSSEntry \<Rightarrow> string option \<Rightarrow> error + string" where
  "generateDiaryEntry host settings item internalLink =
     (let img = imgSrc host (description item);
          reviewText = reviewTextOf host item
      in case filmTitle item of
           Undefined \<Rightarrow> Inl TypeError
         | NonString \<Rightarrow> Inl TypeError
         | Str rawTitle \<Rightarrow>
             (let title = decodeHtmlEntities rawTitle;
                  starsText = starParser (memberRating item) (stars settings);
                  reference = referenceOf settings item;
                  linkText =
                    (if truthy internalLink then orEmpty internalLink
                     else ''['' @ title @ '']('' @ link item @ '')'');
                  displayDate = displayDateOf host settings item;
                  watchedPhrase =
                    (if truthy (watchedDate item)
                     then ''Watched '' @ linkText @ '' '' @ starsText @ '' on '' @ displayDate
                     else ''Marked as watched '' @ linkText @ '' '' @ starsText @ '' on '' @
                       displayDate);
                  heading =
                    (if memberRating item \<noteq> None \<or> truthy reviewText then ''Review: ''
                     else ''Watched: '')
              in Inr
                (case callout settings of
                   CList \<Rightarrow> ''- '' @ watchedPhrase
                 | CListReview \<Rightarrow>
                     ''- '' @ watchedPhrase @ '' '' @
                       (if truthy reviewText then [CR] @ '' >'' @ orEmpty reviewText @ [NL]
                        else [])
                 | CCallout \<Rightarrow>
                     ''> [!letterboxd]+ '' @ heading @ '' '' @ linkText @ '' '' @ starsText @
                       '' - '' @ displayDate @ '' '' @ [CR] @ ''> '' @
                       (if truthy reviewText then orEmpty reviewText else []) @ reference @ [NL]
                 | CCalloutPoster \<Rightarrow>
                     ''> [!letterboxd]+ '' @ heading @ '' '' @ linkText @ '' '' @ starsText @
                       '' - '' @ displayDate @ '' '' @ [CR] @ ''> '' @
                       (if truthy reviewText then
                          (if truthy img then
                             ''!['' @ title @ ''|200]('' @ orEmpty img @ '') '' @ [CR] @ ''> '' @
                               orEmpty reviewText
                           else orEmpty reviewText)
                        else []) @ reference @ [NL])))"

section \<open>The managed section of a film note\<close>

definition mainHeader :: string where
  "mainHeader = ''## Letterboxd''"

definition reviewHeader :: string where
  "reviewHeader = ''### Review''"

definition activityHeader :: string where
  "activityHeader = ''### Activity''"

text \<open>\<^verbatim>\<open>xs.findIndex(P)\<close>, with \<open>None\<close> for \<^verbatim>\<open>-1\<close>.\<close>

fun findIndex :: "('a \<Rightarrow> bool) \<Rightarrow> 'a list \<Rightarrow> nat option" where
  "findIndex P [] = None"
| "findIndex P (x # xs) = (if P x then Some 0 else map_option Suc (findIndex P xs))"

text \<open>The test \<^verbatim>\<open>/^#{1,2} /\<close> for a heading of level one or two.\<close>

definition isHeading12 :: "string \<Rightarrow> bool" where
  "isHeading12 l = (prefix ''# '' l \<or> prefix ''## '' l)"

text \<open>
  The loop that looks for the end of the section: the index of the first heading of level
  one or two after the main heading, or the number of lines.
\<close>

definition sectionEnd :: "string list \<Rightarrow> nat \<Rightarrow> nat" where
  "sectionEnd lines mainHeaderIdx =
     (case findIndex isHeading12 (drop (mainHeaderIdx + 1) lines) of
        None \<Rightarrow> length lines
      | Some j \<Rightarrow> mainHeaderIdx + 1 + j)"

text \<open>\<^verbatim>\<open>xs.slice(a, b)\<close> for indices within the array.\<close>

definition slice :: "'a list \<Rightarrow> nat \<Rightarrow> nat \<Rightarrow> 'a list" where
  "slice xs a b = take (b - a) (drop a xs)"

text \<open>
  The loop over the lines after the activity heading: it stops at the first line that
  starts with \<^verbatim>\<open>#\<close> once trimmed, and keeps, trimmed, the lines that start with \<^verbatim>\<open>-\<close>.
\<close>

fun collectActivities :: "string list \<Rightarrow> string list" where
  "collectActivities [] = []"
| "collectActivities (line # rawLines) =
     (let trimmed = trim line
      in if startsWith ''#'' trimmed then []
         else if startsWith ''-'' trimmed then trimmed # collectActivities rawLines
         else collectActivities rawLines)"

definition extractActivities :: "string \<Rightarrow> string list" where
  "extractActivities sectionContent =
     (if includesStr ''### Activity'' sectionContent then
        (let parts = splitOn ''### Activity'' sectionContent
         in if length parts > 1 then collectActivities (split_nl (parts ! 1)) else [])
      else [])"

definition mergeActivities :: "string list \<Rightarrow> string \<Rightarrow> string list" where
  "mergeActivities activities activityLine =
     (if \<not> list_ex (\<lambda>a. a = trim activityLine) activities then activities @ [activityLine]
      else activities)"

text \<open>
  The loop over the lines after the review heading: it stops at the first line that
  starts with \<^verbatim>\<open>#\<close> once trimmed, and keeps the lines that are not blank.
\<close>

fun collectReview :: "string list \<Rightarrow> string list" where
  "collectReview [] = []"
| "collectReview (line # rawLines) =
     (if startsWith ''#'' (trim line) then []
      else if trim line \<noteq> [] then line # collectReview rawLines
      else collectReview rawLines)"

definition finalReviewOf :: "string \<Rightarrow> string \<Rightarrow> string" where
  "finalReviewOf sectionContent reviewBlock =
     (if reviewBlock \<noteq> [] then reviewBlock
      else if includesStr ''### Review'' sectionContent then
        (let parts = splitOn ''### Review'' sectionContent
         in if length parts > 1 then trim (join_nl (collectReview (split_nl (parts ! 1))))
            else reviewBlock)
      else reviewBlock)"

definition rebuildSection :: "string \<Rightarrow> string \<Rightarrow> string \<Rightarrow> string list" where
  "rebuildSection sectionContent reviewBlock activityLine =
     (let activities = mergeActivities (extractActivities sectionContent) activityLine;
          finalReview = finalReviewOf sectionContent reviewBlock
      in [mainHeader] @
         (if finalReview \<noteq> [] then [[], reviewHeader, [], finalReview] else []) @
         [[], activityHeader, [], join_nl activities, []])"

text \<open>
  \<^verbatim>\<open>s.replace(/\n{3,}/g, '\n\n')\<close>: every maximal run of three or more line breaks
  becomes two. \<open>collapseRun n\<close> has read \<open>n\<close> line breaks of the run it is in.
\<close>

fun collapseRun :: "nat \<Rightarrow> string \<Rightarrow> string" where
  "collapseRun n [] = replicate (min n 2) NL"
| "collapseRun n (c # cs) =
     (if c = NL then collapseRun (Suc n) cs
      else replicate (min n 2) NL @ c # collapseRun 0 cs)"

definition collapseNewlines :: "string \<Rightarrow> string" where
  "collapseNewlines s = collapseRun 0 s"

text \<open>The callback that \<^verbatim>\<open>rebuildMovieNoteContent\<close> gives to \<^verbatim>\<open>vault.process\<close>.\<close>

definition rebuildMovieNoteContent :: "string \<Rightarrow> string \<Rightarrow> string \<Rightarrow> string" where
  "rebuildMovieNoteContent content reviewBlock activityLine =
     (let lines = split_nl content
      in case findIndex (\<lambda>l. trim l = mainHeader) lines of
           None \<Rightarrow>
             trimEnd content @ [NL] @
               join_nl
                 ([[], mainHeader] @
                  (if reviewBlock \<noteq> [] then [[], reviewHeader, [], reviewBlock] else []) @
                  [[], activityHeader, [], activityLine])
         | Some mainHeaderIdx \<Rightarrow>
             (let sectionEndIdx = sectionEnd lines mainHeaderIdx;
                  sectionLines = slice lines (mainHeaderIdx + 1) sectionEndIdx;
                  sectionContent = join_nl sectionLines;
                  newSectionLines = rebuildSection sectionContent reviewBlock activityLine;
                  before = slice lines 0 mainHeaderIdx;
                  after = drop sectionEndIdx lines
              in collapseNewlines (join_nl (before @ newSectionLines @ after))))"


section \<open>Film notes and the sync\<close>

text \<open>
  The vault is the text of its files by path. \<open>Files\<close> is what the plugin takes from the
  host for paths and for the frontmatter of a film note: \<open>normalizePath\<close> is the host's
  function of that name; \<open>notePathOf t title year\<close> is the path that
  \<^verbatim>\<open>createOrUpdateMovieNote\<close> computes from the template \<open>t\<close> (sanitised title, slug and
  year substituted, \<^verbatim>\<open>.md\<close> appended, normalised); \<open>setFrontMatter obj text\<close> is the text
  of a note after \<^verbatim>\<open>processFrontMatter\<close> has set the keys of \<open>obj\<close> and deleted
  \<^verbatim>\<open>letterboxd_url\<close>. Folders are not modelled.
\<close>

type_synonym vault = "string \<rightharpoonup> string"

record Files =
  normalizePath :: "string \<Rightarrow> string"
  notePathOf :: "string \<Rightarrow> string \<Rightarrow> string \<Rightarrow> string"
  setFrontMatter :: "frontmatter \<Rightarrow> string \<Rightarrow> string"

text \<open>\<^verbatim>\<open>s.replace(pat, rep)\<close> for a string \<open>pat\<close>: the first occurrence only.\<close>

fun replaceFirst :: "string \<Rightarrow> string \<Rightarrow> string \<Rightarrow> string" where
  "replaceFirst pat rep [] = []"
| "replaceFirst pat rep (c # cs) =
     (if pat \<noteq> [] \<and> prefix pat (c # cs) then rep @ drop (length pat - 1) cs
      else c # replaceFirst pat rep cs)"

definition activityLineOf :: "Host \<Rightarrow> LetterboxdSettings \<Rightarrow> RSSEntry \<Rightarrow> string" where
  "activityLineOf host settings item =
     (let activityDateLink = displayDateOf host settings item;
          activityDatePrefix =
            (if truthy (watchedDate item) then ''**Watched:**'' else ''**Marked as watched:**'')
      in ''- '' @ activityDatePrefix @ '' '' @ activityDateLink @ '' **Rating:** '' @
         (case memberRating item of None \<Rightarrow> ''-'' | Some score \<Rightarrow> showRating score) @
         '' **Rewatch:** '' @ rewatch item)"

text \<open>
  \<^verbatim>\<open>createOrUpdateMovieNote\<close>: the vault after the call and the link that the call
  returns, or the \<^verbatim>\<open>TypeError\<close> that it throws: \<^verbatim>\<open>decodeHtmlEntities\<close> calls
  \<^verbatim>\<open>replace\<close> on the title, which only a string has, and the year is read with
  \<^verbatim>\<open>toString\<close>, which an undefined year has not.
\<close>

definition createOrUpdateMovieNote ::
    "Host \<Rightarrow> Files \<Rightarrow> LetterboxdSettings \<Rightarrow> RSSEntry \<Rightarrow> vault \<Rightarrow> error + vault \<times> string" where
  "createOrUpdateMovieNote host files settings item v =
     (case filmTitle item of
        Undefined \<Rightarrow> Inl TypeError
      | NonString \<Rightarrow> Inl TypeError
      | Str rawTitle \<Rightarrow>
          (case filmYear item of
             None \<Rightarrow> Inl TypeError
           | Some year \<Rightarrow>
               (let title = decodeHtmlEntities rawTitle;
                    notePath = notePathOf files (movieNoteTemplate settings) title (showInt year);
                    reviewBlock = extractReviewBlockquote (paragraphTexts host) (description item);
                    activityLine = activityLineOf host settings item;
                    fmObj =
                      [(''title'', Scalar title), (''source'', Scalar (link item)),
                       (''year'', Scalar (showInt year))] @
                      (case memberRating item of
                         None \<Rightarrow> []
                       | Some score \<Rightarrow> [(''score'', Scalar (showRating score))]);
                    internalLink =
                      ''[['' @ replaceFirst ''.md'' [] notePath @ ''|'' @ title @ '']]''
                in case v notePath of
                     Some content \<Rightarrow>
                       Inr (v(notePath \<mapsto>
                              rebuildMovieNoteContent (setFrontMatter files fmObj content)
                                reviewBlock activityLine),
                            internalLink)
                   | None \<Rightarrow>
                       Inr (v(notePath \<mapsto>
                              objToFrontmatter fmObj @ [NL] @ ''## Letterboxd'' @
                              (if reviewBlock \<noteq> []
                               then [NL, NL] @ ''### Review'' @ [NL, NL] @ reviewBlock else []) @
                              [NL, NL] @ ''### Activity'' @ [NL, NL] @ activityLine),
                            internalLink))))"

text \<open>
  The first loop of \<^verbatim>\<open>syncLetterboxd\<close>: it stops at the first call that throws, with
  the vault as the calls before it left it.
\<close>

fun processNotes ::
    "Host \<Rightarrow> Files \<Rightarrow> LetterboxdSettings \<Rightarrow> RSSEntry list \<Rightarrow> vault \<Rightarrow> (string \<rightharpoonup> string) \<Rightarrow>
     vault \<times> (error + (string \<rightharpoonup> string))" where
  "processNotes host files settings [] v movieNoteLinks = (v, Inr movieNoteLinks)"
| "processNotes host files settings (item # items) v movieNoteLinks =
     (case createOrUpdateMovieNote host files settings item v of
        Inl e \<Rightarrow> (v, Inl e)
      | Inr (v', l) \<Rightarrow>
          processNotes host files settings items v' (movieNoteLinks(guid item \<mapsto> l)))"

text \<open>The \<^verbatim>\<open>items.map\<close> that renders the diary entries: it throws when one entry does.\<close>

fun renderAll ::
    "Host \<Rightarrow> LetterboxdSettings \<Rightarrow> (string \<rightharpoonup> string) \<Rightarrow> RSSEntry list \<Rightarrow> error + string list" where
  "renderAll host settings movieNoteLinks [] = Inr []"
| "renderAll host settings movieNoteLinks (item # items) =
     (case generateDiaryEntry host settings item (movieNoteLinks (guid item)) of
        Inl e \<Rightarrow> Inl e
      | Inr entry \<Rightarrow>
          (case renderAll host settings movieNoteLinks items of
             Inl e \<Rightarrow> Inl e
           | Inr entries \<Rightarrow> Inr (entry # entries)))"

definition diaryFilename :: "Files \<Rightarrow> LetterboxdSettings \<Rightarrow> string" where
  "diaryFilename files settings =
     normalizePath files
       (if suffix ''.md'' (path settings) then path settings else path settings @ ''.md'')"

text \<open>
  \<^verbatim>\<open>syncLetterboxd\<close> on the parsed feed: the vault it leaves, and the error it throws
  if it throws one. The items are sorted with \<^verbatim>\<open>sort\<close>, a method that only an array
  has: on a feed of one item, or of none, the call throws a \<^verbatim>\<open>TypeError\<close> before
  anything is written.
\<close>

definition syncLetterboxd ::
    "Host \<Rightarrow> Files \<Rightarrow> LetterboxdSettings \<Rightarrow> parsedItems \<Rightarrow> vault \<Rightarrow> vault \<times> error option" where
  "syncLetterboxd host files settings feed v =
     (if username settings = [] then (v, Some BlankUsername)
      else
        (case feed of
           NoItem \<Rightarrow> (v, Some TypeError)
         | SingleItem item \<Rightarrow> (v, Some TypeError)
         | ItemArray feedItems \<Rightarrow>
             (let items = sortItems (dateTime host) (sort_order settings) feedItems;
                  noted =
                    (if createMovieNotes settings
                     then processNotes host files settings items v Map.empty
                     else (v, Inr Map.empty))
              in case snd noted of
                   Inl e \<Rightarrow> (fst noted, Some e)
                 | Inr movieNoteLinks \<Rightarrow>
                     (case renderAll host settings movieNoteLinks items of
                        Inl e \<Rightarrow> (fst noted, Some e)
                      | Inr diaryMdArr \<Rightarrow>
                          ((fst noted)(diaryFilename files settings \<mapsto>
                             updateDiaryFile (sort_order settings) diaryMdArr
                               (fst noted (diaryFilename files settings))),
                           None)))))"

section \<open>A sample feed\<close>

text \<open>
  A host that prints dates as they are and reads a description as one paragraph, settings
  with the \<^verbatim>\<open>List\<close> variant, and four items: two films with a title, one whose title
  element is missing, and the film \<^verbatim>\<open>1917\<close>, whose title the parser reads as a number.
\<close>

definition sampleHost :: Host where
  "sampleHost =
     \<lparr>momentFormat = (\<lambda>d f. d), dateTime = (\<lambda>s. int (length s)),
      paragraphTexts = (\<lambda>d. [d]), imgSrc = (\<lambda>d. None)\<rparr>"

definition sampleFiles :: Files where
  "sampleFiles =
     \<lparr>normalizePath = (\<lambda>p. p),
      notePathOf = (\<lambda>t title year. ''Movies/'' @ title @ ''.md''),
      setFrontMatter = (\<lambda>obj content. content)\<rparr>"

definition sampleSettings :: LetterboxdSettings where
  "sampleSettings =
     \<lparr>username = ''someone'', dateFormat = ''YYYY-MM-DD'', displayDateFormat = ''YYYY-MM-DD'',
      path = ''Letterboxd Diary'', sort_order = ''Old'', callout = CList, stars = 0,
      addReferenceId = False, linkDate = True, createMovieNotes = False,
      movieNoteTemplate = ''Movies/{{title}}''\<rparr>"

definition sampleItem :: RSSEntry where
  "sampleItem =
     \<lparr>link = ''https://letterboxd.com/someone/film/heat/'', guid = ''letterboxd-watch-1'',
      pubDate = ''1'', watchedDate = Some ''2024-01-05'', rewatch = ''No'',
      filmTitle = Str ''Heat'', filmYear = Some 1995, memberRating = None,
      description = ''Watched on Friday January 5, 2024.''\<rparr>"


definition secondItem :: RSSEntry where
  "secondItem =
     \<lparr>link = ''https://letterboxd.com/someone/film/ran/'', guid = ''letterboxd-watch-3'',
      pubDate = ''333'', watchedDate = Some ''2024-01-07'', rewatch = ''No'',
      filmTitle = Str ''Ran'', filmYear = Some 1985, memberRating = None,
      description = ''Watched on Sunday January 7, 2024.''\<rparr>"


section \<open>Splitting and joining\<close>


lemma splitc_not_Nil [simp]: "splitc d s \<noteq> []"
  by (induction s) (auto split: list.splits)

lemma join_Cons: "join sep (x # xs) = (if xs = [] then x else x @ sep @ join sep xs)"
  by (cases xs) auto

lemma join_splitc [simp]: "join [d] (splitc d s) = s"
  by (induction s) (auto simp: join_Cons split: list.splits)

lemma splitc_append_sep: "splitc d (x @ d # s) = splitc d x @ splitc d s"
  by (induction x) (auto split: list.splits)

lemma splitc_no_sep: "d \<notin> set x \<Longrightarrow> splitc d x = [x]"
  by (induction x) auto

lemma splitc_join_concat: "xs \<noteq> [] \<Longrightarrow> splitc d (join [d] xs) = concat (map (splitc d) xs)"
proof (induction xs)
  case Nil
  then show ?case by simp
next
  case (Cons x xs)
  show ?case
  proof (cases xs)
    case Nil
    then show ?thesis by simp
  next
    case (Cons y ys)
    with Cons.IH show ?thesis
      by (simp add: splitc_append_sep)
  qed
qed

lemma splitc_join_lines:
  assumes "\<forall>x\<in>set xs. d \<notin> set x" and "xs \<noteq> []"
  shows "splitc d (join [d] xs) = xs"
proof -
  have "concat (map (splitc d) xs) = concat (map (\<lambda>x. [x]) xs)"
    using assms(1) by (intro arg_cong[where f = concat] map_cong) (auto simp: splitc_no_sep)
  then show ?thesis
    using assms(2) by (simp add: splitc_join_concat)
qed

lemma in_splitc_no_sep: "x \<in> set (splitc d s) \<Longrightarrow> d \<notin> set x"
  by (induction s arbitrary: x) (auto split: if_splits list.splits)

lemma concat_splitc_lines:
  "\<forall>x\<in>set xs. d \<notin> set x \<Longrightarrow> concat (map (splitc d) xs) = xs"
  by (induction xs) (auto simp: splitc_no_sep)

lemma concat_splitc_splitc [simp]: "concat (map (splitc d) (splitc d s)) = splitc d s"
  by (rule concat_splitc_lines) (auto dest: in_splitc_no_sep)

section \<open>Facts about trimming and searching\<close>


declare trimStart.simps [simp del] trimEnd.simps [simp del]

lemma includesStr_sublist: "includesStr pat s \<longleftrightarrow> sublist pat s"
  by (induction s) (auto simp: sublist_Cons_right)

lemma wsPrefix_SomeD: "wsPrefix s = Some w \<Longrightarrow> w \<in> set ws_seqs \<and> s = w @ drop (length w) s"
  by (auto simp: wsPrefix_def find_Some_iff prefix_def)

lemma wsSuffix_SomeD:
  "wsSuffix s = Some w \<Longrightarrow> w \<in> set ws_seqs \<and> s = take (length s - length w) s @ w"
  by (auto simp: wsSuffix_def find_Some_iff suffix_def)

lemma sublist_skip_front:
  "c \<notin> set w \<Longrightarrow> sublist (c # r) (w @ s) \<longleftrightarrow> sublist (c # r) s"
  by (induction w) (auto simp: sublist_Cons_right)

lemma sublist_skip_back1:
  assumes "pat \<noteq> []" and "last pat \<noteq> c"
  shows "sublist pat (s @ [c]) \<longleftrightarrow> sublist pat s"
proof
  assume "sublist pat (s @ [c])"
  then obtain p q where eq: "s @ [c] = p @ pat @ q"
    by (auto simp: sublist_def)
  show "sublist pat s"
  proof (cases q rule: rev_cases)
    case Nil
    with eq assms show ?thesis
      by (metis append_Nil2 last_appendR last_snoc)
  next
    case (snoc q' x)
    with eq have "s = p @ pat @ q'"
      by (metis append_assoc butlast_snoc)
    then show ?thesis
      by (auto simp: sublist_def)
  qed
next
  assume "sublist pat s"
  then show "sublist pat (s @ [c])"
    by (auto simp: sublist_def) (metis append_assoc)
qed

lemma sublist_skip_back:
  "pat \<noteq> [] \<Longrightarrow> last pat \<notin> set w \<Longrightarrow> sublist pat (s @ w) \<longleftrightarrow> sublist pat s"
proof (induction w rule: rev_induct)
  case Nil
  then show ?case by simp
next
  case (snoc x xs)
  then show ?case
    using sublist_skip_back1 [of pat x "s @ xs"] by auto
qed

lemma includesStr_trimStart:
  "\<forall>w\<in>set ws_seqs. c \<notin> set w \<Longrightarrow> includesStr (c # r) (trimStart s) = includesStr (c # r) s"
proof (induction s rule: trimStart.induct)
  case (1 s)
  show ?case
  proof (cases "wsPrefix s")
    case None
    then show ?thesis
      by (simp add: trimStart.simps [of s])
  next
    case (Some w)
    then have w: "w \<in> set ws_seqs" and s: "s = w @ drop (length w) s"
      using wsPrefix_SomeD by blast+
    have "includesStr (c # r) (trimStart s) = includesStr (c # r) (drop (length w) s)"
      using 1 Some by (simp add: trimStart.simps [of s])
    also have "\<dots> = includesStr (c # r) s"
      using sublist_skip_front [of c w r "drop (length w) s"] w s 1(2)
      by (simp add: includesStr_sublist)
    finally show ?thesis .
  qed
qed

lemma includesStr_trimEnd:
  "pat \<noteq> [] \<Longrightarrow> \<forall>w\<in>set ws_seqs. last pat \<notin> set w \<Longrightarrow>
   includesStr pat (trimEnd s) = includesStr pat s"
proof (induction s rule: trimEnd.induct)
  case (1 s)
  show ?case
  proof (cases "wsSuffix s")
    case None
    then show ?thesis
      by (simp add: trimEnd.simps [of s])
  next
    case (Some w)
    then have w: "w \<in> set ws_seqs" and s: "s = take (length s - length w) s @ w"
      using wsSuffix_SomeD by blast+
    have "includesStr pat (trimEnd s) = includesStr pat (take (length s - length w) s)"
      using 1 Some by (simp add: trimEnd.simps [of s])
    also have "\<dots> = includesStr pat s"
      using sublist_skip_back [of pat w "take (length s - length w) s"] w s 1(2,3)
      by (simp add: includesStr_sublist)
    finally show ?thesis .
  qed
qed

lemma includesStr_Watched_trim:
  "includesStr ''Watched on'' (trim s) = includesStr ''Watched on'' s"
proof -
  have a: "\<forall>w\<in>set ws_seqs. CHR ''W'' \<notin> set w"
    by (simp add: ws_seqs_def)
  have b: "\<forall>w\<in>set ws_seqs. last ''Watched on'' \<notin> set w"
    by (simp add: ws_seqs_def)
  show ?thesis
    unfolding trim_def
    using includesStr_trimStart [OF a, of "''atched on''" s]
      includesStr_trimEnd [OF _ b, of "trimStart s"]
    by simp
qed

lemma includesStr_join:
  "x \<in> set xs \<Longrightarrow> includesStr pat x \<Longrightarrow> includesStr pat (join sep xs)"
proof (induction sep xs rule: join.induct)
  case (3 sep x' y ys)
  then show ?case
    by (auto simp: includesStr_sublist sublist_append)
qed auto


lemma join_eq_Nil_hd: "xs \<noteq> [] \<Longrightarrow> hd xs \<noteq> [] \<Longrightarrow> join sep xs \<noteq> []"
  by (cases xs) (auto simp: join_Cons)


lemma wsPrefix_trimStart: "wsPrefix (trimStart s) = None"
proof (induction s rule: trimStart.induct)
  case (1 s)
  show ?case
  proof (cases "wsPrefix s")
    case None
    then show ?thesis
      by (simp add: trimStart.simps [of s])
  next
    case (Some w)
    with 1 show ?thesis
      by (simp add: trimStart.simps [of s])
  qed
qed

lemma wsSuffix_trimEnd: "wsSuffix (trimEnd s) = None"
proof (induction s rule: trimEnd.induct)
  case (1 s)
  show ?case
  proof (cases "wsSuffix s")
    case None
    then show ?thesis
      by (simp add: trimEnd.simps [of s])
  next
    case (Some w)
    with 1 show ?thesis
      by (simp add: trimEnd.simps [of s])
  qed
qed

lemma trimEnd_prefix: "prefix (trimEnd s) s"
proof (induction s rule: trimEnd.induct)
  case (1 s)
  show ?case
  proof (cases "wsSuffix s")
    case None
    then show ?thesis
      by (simp add: trimEnd.simps [of s])
  next
    case (Some w)
    with 1 have "prefix (trimEnd s) (take (length s - length w) s)"
      by (simp add: trimEnd.simps [of s])
    then show ?thesis
      using prefix_order.trans take_is_prefix by blast
  qed
qed

lemma wsPrefix_None_iff: "wsPrefix s = None \<longleftrightarrow> (\<forall>w\<in>set ws_seqs. \<not> prefix w s)"
  by (auto simp: wsPrefix_def find_None_iff)

lemma wsPrefix_trimEnd: "wsPrefix s = None \<Longrightarrow> wsPrefix (trimEnd s) = None"
  unfolding wsPrefix_None_iff
  using trimEnd_prefix [of s] prefix_order.trans by blast

lemma trimStart_id: "wsPrefix s = None \<Longrightarrow> trimStart s = s"
  by (simp add: trimStart.simps [of s])

lemma trimEnd_id: "wsSuffix s = None \<Longrightarrow> trimEnd s = s"
  by (simp add: trimEnd.simps [of s])

lemma trim_trim [simp]: "trim (trim s) = trim s"
proof -
  have "wsPrefix (trim s) = None"
    unfolding trim_def by (rule wsPrefix_trimEnd) (rule wsPrefix_trimStart)
  moreover have "wsSuffix (trim s) = None"
    unfolding trim_def by (rule wsSuffix_trimEnd)
  ultimately have "trimEnd (trimStart (trim s)) = trim s"
    by (simp add: trimStart_id trimEnd_id)
  then show ?thesis
    by (simp add: trim_def [of "trim s"])
qed

section \<open>Facts about the frontmatter codec\<close>


lemma fmEntry_lines: "fmEntry e = concat (map (\<lambda>l. l @ [NL]) (entryLines e))"
proof (cases e)
  case (Pair key v)
  then show ?thesis
    by (cases v) (simp_all add: comp_def itemLine_def)
qed

lemma split_nl_terminated_lines:
  "\<forall>l\<in>set ls. NL \<notin> set l \<Longrightarrow>
   split_nl (concat (map (\<lambda>l. l @ [NL]) ls) @ s) = ls @ split_nl s"
  by (induction ls) (simp_all add: splitc_append_sep splitc_no_sep)

lemma entryLines_no_NL:
  "fmKeyOk key \<Longrightarrow> fmValueOk v \<Longrightarrow> l \<in> set (entryLines (key, v)) \<Longrightarrow> NL \<notin> set l"
  by (cases v) (auto simp: fmKeyOk_def list_all_iff itemLine_def)

lemma prefix_before_char: "prefix p (k @ c # x) \<Longrightarrow> c \<notin> set p \<Longrightarrow> prefix p k"
  by (induction k arbitrary: p) (auto simp: prefix_Cons)

lemma not_isItem_key_line:
  assumes "fmKeyOk key"
  shows "\<not> isItem (key @ CHR '':'' # x)"
proof
  assume "isItem (key @ CHR '':'' # x)"
  then have "prefix ''  - '' (key @ CHR '':'' # x)"
    by (simp only: isItem_def)
  moreover have "CHR '':'' \<notin> set ''  - ''"
    by simp
  ultimately have "prefix ''  - '' key"
    by (rule prefix_before_char)
  with assms show False
    unfolding fmKeyOk_def isItem_def by blast
qed

lemma isItem_itemLine [simp]: "isItem (itemLine v)"
  by (simp add: isItem_def itemLine_def)

lemma drop_itemLine [simp]: "drop 4 (itemLine v) = v"
  by (simp add: itemLine_def)

lemma takeWhile_key: "CHR '':'' \<notin> set key \<Longrightarrow>
    takeWhile (\<lambda>c. c \<noteq> CHR '':'') (key @ CHR '':'' # x) = key"
  by (induction key) auto

lemma dropWhile_key: "CHR '':'' \<notin> set key \<Longrightarrow>
    dropWhile (\<lambda>c. c \<noteq> CHR '':'') (key @ CHR '':'' # x) = CHR '':'' # x"
  by (induction key) auto

lemma fmLines_hd_not_item:
  "fmOk obj \<Longrightarrow> concat (map entryLines obj) = l # ls \<Longrightarrow> \<not> isItem l"
proof (cases obj)
  case Nil
  assume "concat (map entryLines obj) = l # ls"
  with Nil show ?thesis by simp
next
  case (Cons e es)
  assume ok: "fmOk obj" and eq: "concat (map entryLines obj) = l # ls"
  obtain key v where e: "e = (key, v)" by (cases e)
  with ok Cons have k: "fmKeyOk key" by (simp add: fmOk_def)
  show ?thesis
  proof (cases v)
    case (Scalar x)
    with eq Cons e have "l = key @ CHR '':'' # CHR '' '' # x" by simp
    with k show ?thesis by (simp add: not_isItem_key_line)
  next
    case (Array vs)
    with eq Cons e have "l = key @ '':''" by simp
    with k show ?thesis by (simp add: not_isItem_key_line)
  qed
qed

lemma takeWhile_items:
  assumes "ls = [] \<or> \<not> isItem (hd ls)"
  shows "takeWhile isItem (map itemLine vs @ ls) = map itemLine vs"
    and "dropWhile isItem (map itemLine vs @ ls) = ls"
  using assms by (induction vs) (auto simp: takeWhile_eq_Nil_iff dropWhile_eq_self_iff)

lemma parseFmLines_entryLines:
  "fmOk obj \<Longrightarrow> parseFmLines (concat (map entryLines obj)) = obj"
proof (induction obj)
  case Nil
  then show ?case by simp
next
  case (Cons e es)
  obtain key v where e: "e = (key, v)" by (cases e)
  from Cons.prems e have k: "fmKeyOk key" and es: "fmOk es"
    by (simp_all add: fmOk_def)
  then have colon: "CHR '':'' \<notin> set key"
    by (simp add: fmKeyOk_def)
  let ?rest = "concat (map entryLines es)"
  have nohd: "?rest = [] \<or> \<not> isItem (hd ?rest)"
    using fmLines_hd_not_item [OF es] by (cases ?rest) auto
  show ?case
  proof (cases v)
    case (Scalar x)
    have "parseFmLines ((key @ CHR '':'' # CHR '' '' # x) # ?rest) = (key, Scalar x) # parseFmLines ?rest"
      using k colon by (simp add: not_isItem_key_line takeWhile_key dropWhile_key)
    with Scalar e Cons.IH [OF es] show ?thesis by simp
  next
    case (Array vs)
    have "parseFmLines ((key @ '':'') # map itemLine vs @ ?rest) =
        (key, Array (map (drop 4) (map itemLine vs))) # parseFmLines ?rest"
      using k colon not_isItem_key_line [of key "[]"]
      by (simp add: takeWhile_key dropWhile_key takeWhile_items [OF nohd])
    moreover have "map (drop 4) (map itemLine vs) = vs"
      by (simp add: comp_def)
    ultimately show ?thesis
      using Array e Cons.IH [OF es] by simp
  qed
qed

lemma fmLines_no_NL: "fmOk obj \<Longrightarrow> l \<in> set (concat (map entryLines obj)) \<Longrightarrow> NL \<notin> set l"
proof (induction obj)
  case Nil
  then show ?case by simp
next
  case (Cons e es)
  obtain key v where e: "e = (key, v)" by (cases e)
  from Cons.prems(1) e have "fmKeyOk key" "fmValueOk v" "fmOk es"
    by (simp_all add: fmOk_def)
  with Cons e entryLines_no_NL [of key v l] show ?case
    by auto
qed

lemma fmLines_no_delimiter: "fmOk obj \<Longrightarrow> ''---'' \<notin> set (concat (map entryLines obj))"
proof (induction obj)
  case Nil
  then show ?case by simp
next
  case (Cons e es)
  obtain key v where e: "e = (key, v)" by (cases e)
  have "l \<in> set (entryLines (key, v)) \<Longrightarrow> CHR '':'' \<in> set l \<or> hd l = CHR '' ''" for l
    by (cases v) (auto simp: itemLine_def)
  then have "''---'' \<notin> set (entryLines (key, v))"
    by fastforce
  with Cons e show ?case
    by (simp add: fmOk_def)
qed

lemma concat_fmEntry:
  "concat (map fmEntry obj) = concat (map (\<lambda>l. l @ [NL]) (concat (map entryLines obj)))"
  by (induction obj) (simp_all add: fmEntry_lines)

lemma objToFrontmatter_terminated:
  "objToFrontmatter obj =
     concat (map (\<lambda>l. l @ [NL]) (''---'' # concat (map entryLines obj) @ [''---''])) @ []"
  unfolding objToFrontmatter_def concat_fmEntry by simp

lemma objToFrontmatter_lines:
  assumes "fmOk obj"
  shows "split_nl (objToFrontmatter obj) = ''---'' # concat (map entryLines obj) @ [''---'', []]"
proof -
  have "\<forall>l\<in>set (''---'' # concat (map entryLines obj) @ [''---'']). NL \<notin> set l"
    using fmLines_no_NL [OF assms] by auto
  then have "split_nl (objToFrontmatter obj) =
      (''---'' # concat (map entryLines obj) @ [''---'']) @ split_nl []"
    unfolding objToFrontmatter_terminated by (rule split_nl_terminated_lines)
  then show ?thesis
    by simp
qed

section \<open>Facts about the diary merge\<close>

lemma diaryProcess_text:
  "diaryProcess so fm batch data = fm @ join_nl (finalEntriesOf so (diaryBody fm data) batch)"
  by (simp add: diaryProcess_def Let_def)


lemma newEntriesOf_subset:
  "set batch \<subseteq> set body \<Longrightarrow> newEntriesOf body batch = []"
  unfolding newEntriesOf_def by (induction batch) auto

lemma count_list_filter_out: "\<not> P L \<Longrightarrow> count_list (filter P xs) L = 0"
  by (induction xs) auto


section \<open>Facts about the rendered entry\<close>

lemma displayDateOf_cases:
  "displayDateOf host settings item =
     (if truthy (watchedDate item) then
        (if linkDate settings
         then ''[['' @ getFormattedDate host (orEmpty (watchedDate item)) (dateFormat settings) @ '']]''
         else getFormattedDate host (orEmpty (watchedDate item)) (displayDateFormat settings))
      else getFormattedDate host (pubDate item) (displayDateFormat settings))"
  by (simp add: displayDateOf_def Let_def)

lemma splitOn_not_Nil [simp]: "splitOn pat s \<noteq> []"
  by (induction s rule: splitOn.induct) (auto split: list.splits)

lemma join_splitOn_not_Nil: "sep \<noteq> [] \<Longrightarrow> s \<noteq> [] \<Longrightarrow> join sep (splitOn pat s) \<noteq> []"
proof (cases s)
  case Nil
  assume "s \<noteq> []"
  with Nil show ?thesis by simp
next
  case (Cons c cs)
  assume sep: "sep \<noteq> []"
  show ?thesis
  proof (cases "pat \<noteq> [] \<and> prefix pat (c # cs)")
    case True
    then have "splitOn pat s = [] # splitOn pat (drop (length pat - 1) cs)"
      using Cons by simp
    with sep show ?thesis
      by (simp add: join_Cons)
  next
    case False
    obtain l ls where "splitOn pat cs = l # ls"
      by (cases "splitOn pat cs") simp_all
    with False Cons have "splitOn pat s = (c # l) # ls"
      by auto
    then show ?thesis
      by (simp add: join_Cons)
  qed
qed

lemma truthy_reviewTextOf:
  "truthy (reviewTextOf host item) \<longleftrightarrow>
     (\<exists>r. extractReview (paragraphTexts host) (description item) = Some r \<and> r \<noteq> [])"
  by (cases "extractReview (paragraphTexts host) (description item)")
    (simp_all add: reviewTextOf_def truthy_def join_splitOn_not_Nil)

lemma generateDiaryEntry_CList:
  assumes "filmTitle item = Str t" and "callout settings = CList"
  shows "generateDiaryEntry host settings item il =
     Inr (''- '' @ (if truthy (watchedDate item) then ''Watched'' else ''Marked as watched'') @
          '' '' @ (if truthy il then orEmpty il
                   else ''['' @ decodeHtmlEntities t @ '']('' @ link item @ '')'') @
          '' '' @ starParser (memberRating item) (stars settings) @ '' on '' @
          displayDateOf host settings item)"
  using assms by (simp add: generateDiaryEntry_def Let_def)

lemma generateDiaryEntry_CListReview:
  assumes "filmTitle item = Str t" and "callout settings = CListReview"
  shows "generateDiaryEntry host settings item il =
     Inr (''- '' @ (if truthy (watchedDate item) then ''Watched'' else ''Marked as watched'') @
          '' '' @ (if truthy il then orEmpty il
                   else ''['' @ decodeHtmlEntities t @ '']('' @ link item @ '')'') @
          '' '' @ starParser (memberRating item) (stars settings) @ '' on '' @
          displayDateOf host settings item @ '' '' @
          (if truthy (reviewTextOf host item)
           then [CR] @ '' >'' @ orEmpty (reviewTextOf host item) @ [NL] else []))"
  using assms by (simp add: generateDiaryEntry_def Let_def)

lemma generateDiaryEntry_CCallout:
  assumes "filmTitle item = Str t" and "callout settings = CCallout"
  shows "generateDiaryEntry host settings item il =
     Inr (''> [!letterboxd]+ '' @
          (if memberRating item \<noteq> None \<or> truthy (reviewTextOf host item) then ''Review: ''
           else ''Watched: '') @ '' '' @
          (if truthy il then orEmpty il
           else ''['' @ decodeHtmlEntities t @ '']('' @ link item @ '')'') @
          '' '' @ starParser (memberRating item) (stars settings) @ '' - '' @
          displayDateOf host settings item @ '' '' @ [CR] @ ''> '' @
          (if truthy (reviewTextOf host item) then orEmpty (reviewTextOf host item) else []) @
          referenceOf settings item @ [NL])"
  using assms by (simp add: generateDiaryEntry_def Let_def del: split_paired_Ex)

lemma generateDiaryEntry_CCalloutPoster:
  assumes "filmTitle item = Str t" and "callout settings = CCalloutPoster"
  shows "generateDiaryEntry host settings item il =
     Inr (''> [!letterboxd]+ '' @
          (if memberRating item \<noteq> None \<or> truthy (reviewTextOf host item) then ''Review: ''
           else ''Watched: '') @ '' '' @
          (if truthy il then orEmpty il
           else ''['' @ decodeHtmlEntities t @ '']('' @ link item @ '')'') @
          '' '' @ starParser (memberRating item) (stars settings) @ '' - '' @
          displayDateOf host settings item @ '' '' @ [CR] @ ''> '' @
          (if truthy (reviewTextOf host item) then
             (if truthy (imgSrc host (description item)) then
                ''!['' @ decodeHtmlEntities t @ ''|200]('' @
                  orEmpty (imgSrc host (description item)) @ '') '' @ [CR] @ ''> '' @
                  orEmpty (reviewTextOf host item)
              else orEmpty (reviewTextOf host item))
           else []) @
          referenceOf settings item @ [NL])"
  using assms by (simp add: generateDiaryEntry_def Let_def del: split_paired_Ex)

section \<open>Facts about the section merge\<close>


lemma collapseRun_append:
  "ys = [] \<or> hd ys \<noteq> NL \<Longrightarrow> collapseRun n (xs @ ys) = collapseRun n xs @ collapseRun 0 ys"
proof (induction xs arbitrary: n)
  case Nil
  then show ?case by (cases ys) auto
next
  case (Cons x xs)
  then show ?case by simp
qed

lemma collapseNewlines_append:
  "ys = [] \<or> hd ys \<noteq> NL \<Longrightarrow>
   collapseNewlines (xs @ ys) = collapseNewlines xs @ collapseNewlines ys"
  by (simp add: collapseNewlines_def collapseRun_append)

lemma collapseRun_no_run:
  "n \<le> 2 \<Longrightarrow> \<not> sublist [NL, NL, NL] (replicate n NL @ t) \<Longrightarrow>
   collapseRun n t = replicate n NL @ t"
proof (induction t arbitrary: n)
  case Nil
  then show ?case by (simp add: min_def)
next
  case (Cons c cs)
  show ?case
  proof (cases "c = NL")
    case True
    have eq: "replicate n NL @ c # cs = replicate (Suc n) NL @ cs"
      using True by (simp add: replicate_app_Cons_same)
    have "n \<noteq> 2"
    proof
      assume "n = 2"
      then have "replicate n NL @ c # cs = [NL, NL, NL] @ cs"
        using True by (simp add: numeral_2_eq_2)
      then have "sublist [NL, NL, NL] (replicate n NL @ c # cs)"
        by (metis sublist_append_rightI)
      with Cons.prems(2) show False by simp
    qed
    with Cons.prems(1) have "Suc n \<le> 2" by simp
    moreover have "\<not> sublist [NL, NL, NL] (replicate (Suc n) NL @ cs)"
      using Cons.prems(2) eq by simp
    ultimately have "collapseRun (Suc n) cs = replicate (Suc n) NL @ cs"
      by (rule Cons.IH)
    with True eq show ?thesis by simp
  next
    case False
    have "sublist cs (replicate n NL @ c # cs)"
      by (metis append_Cons append_Nil sublist_append_leftI append_assoc)
    then have "\<not> sublist [NL, NL, NL] (replicate 0 NL @ cs)"
      using Cons.prems(2) by (auto dest: sublist_order.order.trans)
    then have "collapseRun 0 cs = replicate 0 NL @ cs"
      by (intro Cons.IH) simp
    with False Cons.prems(1) show ?thesis
      by (simp add: min_def)
  qed
qed

lemma collapseNewlines_no_run:
  "\<not> includesStr [NL, NL, NL] t \<Longrightarrow> collapseNewlines t = t"
  using collapseRun_no_run [of 0 t] by (simp add: collapseNewlines_def includesStr_sublist)

lemma terminated_lines_join:
  "xs \<noteq> [] \<Longrightarrow> concat (map (\<lambda>l. l @ [NL]) xs) = join_nl xs @ [NL]"
  by (induction xs rule: join.induct [of _ "[NL]"]) auto

lemma join_nl_append:
  "ys \<noteq> [] \<Longrightarrow> join_nl (xs @ ys) = concat (map (\<lambda>l. l @ [NL]) xs) @ join_nl ys"
  by (induction xs) (auto simp: join_Cons)

lemma findIndex_Some:
  "findIndex P xs = Some j \<Longrightarrow> j < length xs \<and> P (xs ! j)"
  by (induction xs arbitrary: j) (auto split: if_splits)

lemma findIndex_None_length:
  "findIndex P xs = None \<Longrightarrow> \<forall>x\<in>set xs. \<not> P x"
  by (induction xs) (auto split: if_splits)

lemma sectionEnd_bounds:
  assumes "idx < length lines"
  shows "idx < sectionEnd lines idx \<and> sectionEnd lines idx \<le> length lines"
proof (cases "findIndex isHeading12 (drop (idx + 1) lines)")
  case None
  with assms show ?thesis by (simp add: sectionEnd_def)
next
  case (Some j)
  then have "j < length (drop (idx + 1) lines)"
    using findIndex_Some by blast
  with Some show ?thesis by (simp add: sectionEnd_def)
qed

lemma sectionEnd_heading:
  assumes "sectionEnd lines idx < length lines"
  shows "isHeading12 (lines ! sectionEnd lines idx)"
proof (cases "findIndex isHeading12 (drop (idx + 1) lines)")
  case None
  with assms show ?thesis by (simp add: sectionEnd_def)
next
  case (Some j)
  then have "j < length (drop (idx + 1) lines)" "isHeading12 (drop (idx + 1) lines ! j)"
    using findIndex_Some by blast+
  with Some show ?thesis by (simp add: sectionEnd_def add.commute add.left_commute)
qed

lemma isHeading12_hd: "isHeading12 l \<Longrightarrow> l \<noteq> [] \<and> hd l = CHR ''#''"
  by (auto simp: isHeading12_def prefix_def)

lemma hd_join_nl: "x \<noteq> [] \<Longrightarrow> hd (join_nl (x # xs)) = hd x"
  by (simp add: join_Cons)


lemma rebuildSection_shape:
  "\<exists>rest. rebuildSection sectionContent r a = mainHeader # rest"
  by (simp add: rebuildSection_def Let_def)

lemma join_nl_append2:
  "xs \<noteq> [] \<Longrightarrow> ys \<noteq> [] \<Longrightarrow> join_nl (xs @ ys) = (join_nl xs @ [NL]) @ join_nl ys"
  by (simp add: join_nl_append terminated_lines_join)

lemma content_parts:
  assumes "idx < e" and "e \<le> length lines"
  shows "join_nl lines =
     concat (map (\<lambda>l. l @ [NL]) (take idx lines)) @
     (join_nl (slice lines idx e) @ (if e < length lines then [NL] else [])) @
     join_nl (drop e lines)"
proof -
  have sl: "slice lines idx e \<noteq> []"
    using assms by (simp add: slice_def)
  have split3: "lines = take idx lines @ slice lines idx e @ drop e lines"
    using assms
    by (simp add: slice_def) (metis add_diff_inverse_nat append_take_drop_id drop_drop
        less_imp_le_nat not_less add.commute)
  have "join_nl lines = join_nl (take idx lines @ slice lines idx e @ drop e lines)"
    using split3 by simp
  also have "\<dots> = concat (map (\<lambda>l. l @ [NL]) (take idx lines)) @
      join_nl (slice lines idx e @ drop e lines)"
    using sl by (intro join_nl_append) simp
  also have "join_nl (slice lines idx e @ drop e lines) =
      (join_nl (slice lines idx e) @ (if e < length lines then [NL] else [])) @
      join_nl (drop e lines)"
  proof (cases "e < length lines")
    case True
    then have "drop e lines \<noteq> []" by simp
    then show ?thesis
      using True sl by (simp add: join_nl_append terminated_lines_join)
  next
    case False
    then show ?thesis by simp
  qed
  finally show ?thesis .
qed

lemma rebuild_with_heading:
  assumes "findIndex (\<lambda>l. trim l = mainHeader) (split_nl content) = Some idx"
  shows "rebuildMovieNoteContent content r a =
     collapseNewlines
       (join_nl
         (take idx (split_nl content) @
          rebuildSection
            (join_nl (slice (split_nl content) (idx + 1) (sectionEnd (split_nl content) idx))) r a @
          drop (sectionEnd (split_nl content) idx) (split_nl content)))"
  using assms by (simp add: rebuildMovieNoteContent_def Let_def slice_def)


lemma run3_after_char:
  assumes "k \<le> 2" and "c \<noteq> NL" and "sublist [NL, NL, NL] (replicate k NL @ c # t)"
  shows "sublist [NL, NL, NL] t"
proof -
  from assms(1) consider "k = 0" | "k = Suc 0" | "k = Suc (Suc 0)"
    by (auto simp: le_Suc_eq numeral_2_eq_2)
  then show ?thesis
    using assms(2,3) by cases (auto simp: sublist_Cons_right)
qed

lemma collapseRun_no_run3: "\<not> sublist [NL, NL, NL] (collapseRun n s)"
proof (induction s arbitrary: n)
  case Nil
  have "length (collapseRun n []) < length [NL, NL, NL]"
    by simp
  then show ?case
    using sublist_length_le [of "[NL, NL, NL]" "collapseRun n []"] by auto
next
  case (Cons c cs)
  show ?case
  proof (cases "c = NL")
    case True
    with Cons show ?thesis by simp
  next
    case False
    have "\<not> sublist [NL, NL, NL] (replicate (min n 2) NL @ c # collapseRun 0 cs)"
      using run3_after_char [of "min n 2" c "collapseRun 0 cs"] False Cons [of 0] by auto
    with False show ?thesis by simp
  qed
qed









lemma trim_Nil [simp]: "trim [] = []"
  by code_simp








section \<open>Facts about the sync\<close>











lemma set_sortItems [simp]: "set (sortItems getTime so items) = set items"
  by (simp add: sortItems_def)



section \<open>Facts about a second diary merge\<close>


lemma fst_parseFrontmatter: "fst (parseFrontmatter t) = fmOfLines (split_nl t)"
  by (simp add: parseFrontmatter_def fmOfLines_def split: list.splits)

lemma fmOfLines_append:
  "''---'' \<notin> set new \<Longrightarrow> fmOfLines (ls @ new) = (if ls = [] then fmOfLines new else fmOfLines ls)"
  by (cases ls) (auto simp: fmOfLines_def takeWhile_append1 split: list.splits)

lemma fmOfLines_no_delim_first:
  "''---'' \<notin> set new \<Longrightarrow> new \<noteq> [] \<Longrightarrow> fmOfLines (new @ ls) = []"
  by (cases new) (auto simp: fmOfLines_def)

lemma fmOfLines_no_delim: "''---'' \<notin> set ls \<Longrightarrow> fmOfLines ls = []"
  by (cases ls) (auto simp: fmOfLines_def)

lemma set_tl_subset: "set (tl xs) \<subseteq> set xs"
  by (cases xs) auto

lemma parseFmLines_ok:
  "\<forall>l\<in>set ls. NL \<notin> set l \<Longrightarrow> fmOk (parseFmLines ls)"
proof (induction ls rule: parseFmLines.induct)
  case 1
  then show ?case by (simp add: fmOk_def)
next
  case (2 l ls)
  let ?key = "takeWhile (\<lambda>c. c \<noteq> CHR '':'') l"
  let ?rest = "dropWhile (\<lambda>c. c \<noteq> CHR '':'') l"
  have l: "NL \<notin> set l" and ls: "\<forall>l\<in>set ls. NL \<notin> set l"
    using "2.prems" by auto
  have key_set: "set ?key \<subseteq> set l"
    by (auto dest: set_takeWhileD)
  have rest_set: "set (tl (tl ?rest)) \<subseteq> set l"
    using set_tl_subset [of ?rest] set_tl_subset [of "tl ?rest"]
    by (auto dest: set_dropWhileD)
  have key_ok: "\<not> isItem l \<Longrightarrow> fmKeyOk ?key"
  proof -
    assume ni: "\<not> isItem l"
    have "CHR '':'' \<notin> set ?key"
      by (auto dest: set_takeWhileD)
    moreover have "NL \<notin> set ?key"
      using key_set l by auto
    moreover have "\<not> isItem ?key"
    proof
      assume "isItem ?key"
      then have "prefix ''  - '' ?key"
        by (simp only: isItem_def)
      moreover have "prefix ?key l"
        by (metis prefixI takeWhile_dropWhile_id)
      ultimately have "prefix ''  - '' l"
        by (rule prefix_order.trans)
      with ni show False
        unfolding isItem_def by blast
    qed
    ultimately show ?thesis
      by (simp only: fmKeyOk_def simp_thms)
  qed
  have dw: "\<forall>l\<in>set (dropWhile isItem ls). NL \<notin> set l"
    using ls by (auto dest: set_dropWhileD)
  have items: "list_all (\<lambda>v. NL \<notin> set v) (map (drop 4) (takeWhile isItem ls))"
    using ls by (auto simp: list_all_iff dest!: set_takeWhileD in_set_dropD)
  show ?case
  proof (cases "isItem l \<or> ?rest = []")
    case True
    then have "parseFmLines (l # ls) = parseFmLines ls"
      by (simp add: Let_def)
    with True 2 ls show ?thesis by simp
  next
    case False
    note nf = False
    then have k: "fmKeyOk ?key"
      using key_ok by blast
    show ?thesis
    proof (cases "tl ?rest = []")
      case True
      with nf have eq: "parseFmLines (l # ls) =
          (?key, Array (map (drop 4) (takeWhile isItem ls))) # parseFmLines (dropWhile isItem ls)"
        by (auto simp: Let_def)
      from True nf 2 dw have "fmOk (parseFmLines (dropWhile isItem ls))"
        by simp
      with k items show ?thesis
        unfolding eq by (simp add: fmOk_def)
    next
      case False
      note nt = False
      show ?thesis
      proof (cases "hd (tl ?rest) = CHR '' ''")
        case True
        with nf nt have eq: "parseFmLines (l # ls) =
            (?key, Scalar (tl (tl ?rest))) # parseFmLines ls"
          by (auto simp: Let_def)
        from True nf nt 2 ls have "fmOk (parseFmLines ls)"
          by simp
        moreover have "NL \<notin> set (tl (tl ?rest))"
          using rest_set l by auto
        ultimately show ?thesis
          unfolding eq using k by (simp add: fmOk_def)
      next
        case False
        with nf nt have eq: "parseFmLines (l # ls) = parseFmLines ls"
          by (auto simp: Let_def)
        from False nf nt 2 ls show ?thesis
          unfolding eq by simp
      qed
    qed
  qed
qed

lemma fmOfLines_ok: "\<forall>l\<in>set ls. NL \<notin> set l \<Longrightarrow> fmOk (fmOfLines ls)"
proof (cases ls)
  case Nil
  then show ?thesis by (simp add: fmOfLines_def fmOk_def)
next
  case (Cons first rest)
  assume "\<forall>l\<in>set ls. NL \<notin> set l"
  with Cons have "\<forall>l\<in>set (takeWhile (\<lambda>l. l \<noteq> ''---'') rest). NL \<notin> set l"
    by (auto dest: set_takeWhileD)
  then have "fmOk (parseFmLines (takeWhile (\<lambda>l. l \<noteq> ''---'') rest))"
    by (rule parseFmLines_ok)
  with Cons show ?thesis
    by (simp add: fmOfLines_def fmOk_def)
qed

lemma parseFrontmatter_ok: "fmOk (fst (parseFrontmatter t))"
  unfolding fst_parseFrontmatter by (rule fmOfLines_ok) (auto dest: in_splitc_no_sep)


lemma objToFrontmatter_not_Nil [simp]: "objToFrontmatter obj \<noteq> []"
  by (simp add: objToFrontmatter_def)

lemma split_serialized_prefix:
  assumes "fmOk obj"
  shows "split_nl (objToFrontmatter obj @ rest) =
     ''---'' # concat (map entryLines obj) @ ''---'' # split_nl rest"
proof -
  have "\<forall>l\<in>set (''---'' # concat (map entryLines obj) @ [''---'']). NL \<notin> set l"
    using fmLines_no_NL [OF assms] by auto
  then have "split_nl (concat (map (\<lambda>l. l @ [NL])
      (''---'' # concat (map entryLines obj) @ [''---''])) @ rest) =
      (''---'' # concat (map entryLines obj) @ [''---'']) @ split_nl rest"
    by (rule split_nl_terminated_lines)
  moreover have "objToFrontmatter obj @ rest =
      concat (map (\<lambda>l. l @ [NL]) (''---'' # concat (map entryLines obj) @ [''---''])) @ rest"
    using objToFrontmatter_terminated [of obj] by simp
  ultimately show ?thesis
    by simp
qed

lemma fmOfLines_serialized:
  assumes "fmOk obj"
  shows "fmOfLines (split_nl (objToFrontmatter obj @ rest)) = obj"
proof -
  let ?ls = "concat (map entryLines obj)"
  have "takeWhile (\<lambda>l. l \<noteq> ''---'') (?ls @ ''---'' # split_nl rest) = ?ls"
    using fmLines_no_delimiter [OF assms] by (simp add: takeWhile_append)
  then show ?thesis
    unfolding split_serialized_prefix [OF assms]
    using parseFmLines_entryLines [OF assms] by (simp add: fmOfLines_def)
qed

lemma skipFrontmatter_second:
  "''---'' \<notin> set xs \<Longrightarrow> skipFrontmatter (Suc 0) (xs @ ''---'' # tail) = tail"
  by (induction xs) auto

lemma skipFrontmatter_serialized:
  assumes "fmOk obj"
  shows "skipFrontmatter 0 (split_nl (objToFrontmatter obj @ rest)) = split_nl rest"
  unfolding split_serialized_prefix [OF assms]
  using fmLines_no_delimiter [OF assms] by (simp add: skipFrontmatter_second)

lemma set_skipFrontmatter: "set (skipFrontmatter n xs) \<subseteq> set xs"
  by (induction n xs rule: skipFrontmatter.induct) auto

lemma diaryBody_no_NL: "l \<in> set (diaryBody fm d) \<Longrightarrow> NL \<notin> set l"
  using set_skipFrontmatter [of 0 "split_nl d"]
  by (auto simp: diaryBody_def dest: in_splitc_no_sep split: if_splits)

lemma diaryFrontMatter_cases:
  "diaryFrontMatter d = (if fmOfLines (split_nl d) = [] then []
     else objToFrontmatter (fmOfLines (split_nl d)))"
  by (simp add: diaryFrontMatter_def fst_parseFrontmatter Let_def)

lemma update_fixed:
  assumes "set entries \<subseteq> set (diaryBody (diaryFrontMatter d) d)"
    and "d = diaryFrontMatter d @ join_nl (diaryBody (diaryFrontMatter d) d)"
  shows "updateDiaryFile so entries (Some d) = d"
proof -
  have "finalEntriesOf so (diaryBody (diaryFrontMatter d) d) entries =
      diaryBody (diaryFrontMatter d) d"
    using assms(1) by (simp add: finalEntriesOf_def Let_def newEntriesOf_subset)
  then have "updateDiaryFile so entries (Some d) =
      diaryFrontMatter d @ join_nl (diaryBody (diaryFrontMatter d) d)"
    by (simp add: updateDiaryFile_def diaryProcess_text)
  with assms(2) show ?thesis
    by simp
qed

lemma set_entries_final: "set entries \<subseteq> set (finalEntriesOf so body entries)"
  by (auto simp: finalEntriesOf_def Let_def newEntriesOf_def)

lemma final_lines_no_NL:
  assumes "\<forall>e\<in>set entries. NL \<notin> set e" and "\<forall>l\<in>set body. NL \<notin> set l"
  shows "\<forall>l\<in>set (finalEntriesOf so body entries). NL \<notin> set l"
  using assms by (auto simp: finalEntriesOf_def Let_def newEntriesOf_def)

lemma fmOfLines_final:
  assumes "''---'' \<notin> set entries" and "fmOfLines body = []" and "body \<noteq> []"
  shows "fmOfLines (finalEntriesOf so body entries) = []"
proof -
  have nd: "''---'' \<notin> set (newEntriesOf body entries)"
    using assms(1) by (simp add: newEntriesOf_def)
  show ?thesis
  proof (cases "so = ''Old''")
    case True
    with assms(2,3) nd show ?thesis
      by (simp add: finalEntriesOf_def Let_def fmOfLines_append)
  next
    case False
    show ?thesis
    proof (cases "newEntriesOf body entries = []")
      case True
      with False assms(2) show ?thesis
        by (simp add: finalEntriesOf_def Let_def)
    next
      case nonempty: False
      with False nd show ?thesis
        by (simp add: finalEntriesOf_def Let_def fmOfLines_no_delim_first)
    qed
  qed
qed

lemma second_run_plain:
  assumes "final \<noteq> []" and "\<forall>l\<in>set final. NL \<notin> set l" and "fmOfLines final = []"
    and "set entries \<subseteq> set final"
  shows "updateDiaryFile so entries (Some (join_nl final)) = join_nl final"
proof -
  have lines: "split_nl (join_nl final) = final"
    using assms(2,1) by (rule splitc_join_lines)
  have fm1: "diaryFrontMatter (join_nl final) = []"
    using assms(3) by (simp add: diaryFrontMatter_cases lines)
  show ?thesis
  proof (rule update_fixed)
    show "set entries \<subseteq> set (diaryBody (diaryFrontMatter (join_nl final)) (join_nl final))"
      unfolding fm1 using assms(4) by (simp add: diaryBody_def lines)
    show "join_nl final = diaryFrontMatter (join_nl final) @
        join_nl (diaryBody (diaryFrontMatter (join_nl final)) (join_nl final))"
      unfolding fm1 by (simp add: diaryBody_def)
  qed
qed

lemma second_run_frontmatter:
  assumes "fmOk m" and "m \<noteq> []" and "\<forall>l\<in>set final. NL \<notin> set l"
    and "set entries \<subseteq> set final"
  shows "updateDiaryFile so entries (Some (objToFrontmatter m @ join_nl final)) =
     objToFrontmatter m @ join_nl final"
proof -
  let ?d = "objToFrontmatter m @ join_nl final"
  have m1: "fmOfLines (split_nl ?d) = m"
    using assms(1) by (rule fmOfLines_serialized)
  have fm1: "diaryFrontMatter ?d = objToFrontmatter m"
    using assms(2) by (simp add: diaryFrontMatter_cases m1)
  have body1: "diaryBody (objToFrontmatter m) ?d = split_nl (join_nl final)"
    using assms(1) by (simp add: diaryBody_def skipFrontmatter_serialized)
  have sub: "set entries \<subseteq> set (split_nl (join_nl final))"
  proof (cases "final = []")
    case True
    with assms(4) show ?thesis
      by simp
  next
    case False
    with assms(3) have "split_nl (join_nl final) = final"
      by (rule splitc_join_lines)
    with assms(4) show ?thesis
      by simp
  qed
  show ?thesis
  proof (rule update_fixed)
    show "set entries \<subseteq> set (diaryBody (diaryFrontMatter ?d) ?d)"
      unfolding fm1 body1 by (rule sub)
    show "?d = diaryFrontMatter ?d @ join_nl (diaryBody (diaryFrontMatter ?d) ?d)"
      unfolding fm1 body1 by simp
  qed
qed

lemma diary_second_run:
  assumes "\<forall>e\<in>set entries. NL \<notin> set e \<and> e \<noteq> ''---''"
  shows "updateDiaryFile so entries (Some (updateDiaryFile so entries diaryFile)) =
     updateDiaryFile so entries diaryFile"
proof (cases diaryFile)
  case None
  have no_delim: "''---'' \<notin> set entries" and no_nl: "\<forall>e\<in>set entries. NL \<notin> set e"
    using assms by auto
  have "updateDiaryFile so entries (Some (join_nl entries)) = join_nl entries"
  proof (cases "entries = []")
    case True
    have "updateDiaryFile so [] (Some (join_nl [[]])) = join_nl [[]]"
      by (rule second_run_plain) (simp_all add: fmOfLines_def)
    with True show ?thesis
      by simp
  next
    case False
    then show ?thesis
      using no_nl no_delim by (intro second_run_plain) (simp_all add: fmOfLines_no_delim)
  qed
  with None show ?thesis
    by (simp add: updateDiaryFile_def)
next
  case (Some d0)
  define fm where "fm = diaryFrontMatter d0"
  define body where "body = diaryBody fm d0"
  define final where "final = finalEntriesOf so body entries"
  have d1: "updateDiaryFile so entries diaryFile = fm @ join_nl final"
    using Some by (simp add: updateDiaryFile_def diaryProcess_text fm_def body_def final_def)
  have no_delim: "''---'' \<notin> set entries" and no_nl: "\<forall>e\<in>set entries. NL \<notin> set e"
    using assms by auto
  have "\<forall>l\<in>set body. NL \<notin> set l"
    using diaryBody_no_NL by (auto simp: body_def)
  with no_nl have final_nl: "\<forall>l\<in>set final. NL \<notin> set l"
    unfolding final_def by (rule final_lines_no_NL)
  have sub: "set entries \<subseteq> set final"
    unfolding final_def by (rule set_entries_final)
  have "updateDiaryFile so entries (Some (fm @ join_nl final)) = fm @ join_nl final"
  proof (cases "fmOfLines (split_nl d0) = []")
    case True
    then have fm0: "fm = []"
      by (simp add: fm_def diaryFrontMatter_cases)
    then have b: "body = split_nl d0"
      by (simp add: body_def diaryBody_def)
    then have ne: "final \<noteq> []"
      by (simp add: final_def finalEntriesOf_def Let_def)
    have "fmOfLines final = []"
      unfolding final_def using no_delim True b by (intro fmOfLines_final) simp_all
    with ne final_nl sub have "updateDiaryFile so entries (Some (join_nl final)) = join_nl final"
      by (intro second_run_plain)
    with fm0 show ?thesis
      by simp
  next
    case False
    have ok: "fmOk (fmOfLines (split_nl d0))"
      using parseFrontmatter_ok [of d0] by (simp add: fst_parseFrontmatter)
    have fm0: "fm = objToFrontmatter (fmOfLines (split_nl d0))"
      using False by (simp add: fm_def diaryFrontMatter_cases)
    show ?thesis
      unfolding fm0 using ok False final_nl sub by (rule second_run_frontmatter)
  qed
  with d1 show ?thesis
    by simp
qed

section \<open>Syncing twice\<close>

text \<open>
  Claim C1 says that a second sync with the same records leaves every document as the
  first sync wrote it. The code does not do that. With the \<^verbatim>\<open>Callout\<close> variant the
  rendered entry ends in a line break, so it is never equal to a line of the diary, the
  filter of \<open>updateDiaryFile\<close> keeps it, and the second sync writes every entry a second
  time. With film notes on, the first sync creates the note without a final line break and
  the second sync, which rebuilds the section, ends it with one. The theorem evaluates
  both on a feed of two items, the least that the sync reads: the diary of the second sync
  is the diary of the first followed by the two entries again.
\<close>

theorem double_sync_not_identity:
  "snd (syncLetterboxd sampleHost sampleFiles (sampleSettings\<lparr>callout := CCallout\<rparr>)
     (ItemArray [sampleItem, secondItem]) Map.empty) = None \<and>
   fst (syncLetterboxd sampleHost sampleFiles (sampleSettings\<lparr>callout := CCallout\<rparr>)
     (ItemArray [sampleItem, secondItem]) Map.empty) ''Letterboxd Diary.md'' =
     Some (''> [!letterboxd]+ Watched:  [Heat](https://letterboxd.com/someone/film/heat/)  - [[2024-01-05]] '' @
       [CR] @ ''> '' @ [NL] @ [NL] @
       ''> [!letterboxd]+ Watched:  [Ran](https://letterboxd.com/someone/film/ran/)  - [[2024-01-07]] '' @
       [CR] @ ''> '' @ [NL]) \<and>
   snd (syncLetterboxd sampleHost sampleFiles (sampleSettings\<lparr>callout := CCallout\<rparr>)
     (ItemArray [sampleItem, secondItem])
     (fst (syncLetterboxd sampleHost sampleFiles (sampleSettings\<lparr>callout := CCallout\<rparr>)
     (ItemArray [sampleItem, secondItem]) Map.empty))) = None \<and>
   fst (syncLetterboxd sampleHost sampleFiles (sampleSettings\<lparr>callout := CCallout\<rparr>)
     (ItemArray [sampleItem, secondItem])
     (fst (syncLetterboxd sampleHost sampleFiles (sampleSettings\<lparr>callout := CCallout\<rparr>)
     (ItemArray [sampleItem, secondItem]) Map.empty))) ''Letterboxd Diary.md'' =
     Some (''> [!letterboxd]+ Watched:  [Heat](https://letterboxd.com/someone/film/heat/)  - [[2024-01-05]] '' @
       [CR] @ ''> '' @ [NL] @ [NL] @
       ''> [!letterboxd]+ Watched:  [Ran](https://letterboxd.com/someone/film/ran/)  - [[2024-01-07]] '' @
       [CR] @ ''> '' @ [NL] @ [NL] @
       ''> [!letterboxd]+ Watched:  [Heat](https://letterboxd.com/someone/film/heat/)  - [[2024-01-05]] '' @
       [CR] @ ''> '' @ [NL] @ [NL] @
       ''> [!letterboxd]+ Watched:  [Ran](https://letterboxd.com/someone/film/ran/)  - [[2024-01-07]] '' @
       [CR] @ ''> '' @ [NL]) \<and>
   fst (syncLetterboxd sampleHost sampleFiles (sampleSettings\<lparr>createMovieNotes := True\<rparr>)
     (ItemArray [sampleItem, secondItem]) Map.empty) ''Movies/Heat.md'' =
     Some (''---'' @ [NL] @ ''title: Heat'' @ [NL] @
       ''source: https://letterboxd.com/someone/film/heat/'' @ [NL] @ ''year: 1995'' @ [NL] @
       ''---'' @ [NL, NL] @ ''## Letterboxd'' @ [NL, NL] @ ''### Activity'' @ [NL, NL] @
       ''- **Watched:** [[2024-01-05]] **Rating:** - **Rewatch:** No'') \<and>
   fst (syncLetterboxd sampleHost sampleFiles (sampleSettings\<lparr>createMovieNotes := True\<rparr>)
     (ItemArray [sampleItem, secondItem])
     (fst (syncLetterboxd sampleHost sampleFiles (sampleSettings\<lparr>createMovieNotes := True\<rparr>)
     (ItemArray [sampleItem, secondItem]) Map.empty))) ''Movies/Heat.md'' =
     Some (''---'' @ [NL] @ ''title: Heat'' @ [NL] @
       ''source: https://letterboxd.com/someone/film/heat/'' @ [NL] @ ''year: 1995'' @ [NL] @
       ''---'' @ [NL, NL] @ ''## Letterboxd'' @ [NL, NL] @ ''### Activity'' @ [NL, NL] @
       ''- **Watched:** [[2024-01-05]] **Rating:** - **Rewatch:** No'' @ [NL])"
  by code_simp

section \<open>Dedup by line in the diary merge\<close>

text \<open>
  Claim C2. In the diary merge every entry of the batch that is already a line of the body,
  by equality of strings, is filtered out: a line \<open>L\<close> of the body is not among the new
  entries, the merged lines hold \<open>L\<close> as often as the body did, the merged lines are the
  body's and the new entries', and merging a batch whose entries are all lines of the body
  (the batch \<open>[L]\<close> for one) leaves the body as it was, line count included: the text
  written is then the frontmatter and the body's lines.
\<close>

theorem diary_dedup_by_line:
  assumes "L \<in> set body"
  shows "L \<notin> set (newEntriesOf body batch) \<and>
         count_list (finalEntriesOf so body batch) L = count_list body L \<and>
         length (finalEntriesOf so body batch) = length body + length (newEntriesOf body batch) \<and>
         finalEntriesOf so body [L] = body \<and>
         (set batch \<subseteq> set body \<longrightarrow> finalEntriesOf so body batch = body) \<and>
         (L \<in> set (diaryBody fm data) \<longrightarrow>
            diaryProcess so fm [L] data = fm @ join_nl (diaryBody fm data))"
proof -
  have a: "L \<notin> set (newEntriesOf body batch)"
    using assms by (simp add: newEntriesOf_def)
  have b: "count_list (newEntriesOf body batch) L = 0"
    using assms by (simp add: newEntriesOf_def count_list_filter_out)
  have c: "newEntriesOf body [L] = []"
    using assms by (simp add: newEntriesOf_def)
  have d: "diaryProcess so fm [L] data = fm @ join_nl (diaryBody fm data)"
    if "L \<in> set (diaryBody fm data)"
    using that by (simp add: diaryProcess_text finalEntriesOf_def Let_def newEntriesOf_def)
  have "L \<notin> set (newEntriesOf body batch) \<and>
      count_list (finalEntriesOf so body batch) L = count_list body L \<and>
      length (finalEntriesOf so body batch) = length body + length (newEntriesOf body batch) \<and>
      finalEntriesOf so body [L] = body \<and>
      (set batch \<subseteq> set body \<longrightarrow> finalEntriesOf so body batch = body)"
    using a b c by (auto simp: finalEntriesOf_def Let_def newEntriesOf_subset)
  with d show ?thesis
    by blast
qed

theorem diary_dedup_by_line_witness:
  "''- Watched B on 2024-01-02'' \<in> set [''- Watched A on 2024-01-01'', ''- Watched B on 2024-01-02''] \<and>
   finalEntriesOf ''Old'' [''- Watched A on 2024-01-01'', ''- Watched B on 2024-01-02'']
     [''- Watched B on 2024-01-02'', ''- Watched C on 2024-01-03''] =
     [''- Watched A on 2024-01-01'', ''- Watched B on 2024-01-02'', ''- Watched C on 2024-01-03''] \<and>
   count_list (finalEntriesOf ''Old'' [''- Watched A on 2024-01-01'', ''- Watched B on 2024-01-02'']
     [''- Watched B on 2024-01-02'', ''- Watched C on 2024-01-03'']) ''- Watched B on 2024-01-02'' = 1"
  using diary_dedup_by_line [where L = "''- Watched B on 2024-01-02''"
      and body = "[''- Watched A on 2024-01-01'', ''- Watched B on 2024-01-02'']"
      and batch = "[''- Watched B on 2024-01-02'', ''- Watched C on 2024-01-03'']"
      and so = "''Old''"]
  by (simp add: finalEntriesOf_def newEntriesOf_def)

section \<open>The text around the managed section\<close>

text \<open>
  Claim C3, as amended. Take a note whose line \<open>idx\<close> is the first that reads
  \<^verbatim>\<open>## Letterboxd\<close> once trimmed, and whose section ends at line \<open>e\<close>. The note is the
  text before the heading line, the old section, and the text from line \<open>e\<close> on. The
  merge returns the text before the heading line, then the rebuilt section, then the text
  from line \<open>e\<close> on, each with every run of three or more line breaks shortened to two:
  the last step of the merge normalises the whole note, not only the section. Text
  without such a run is returned byte for byte.
\<close>

theorem section_isolation:
  assumes "findIndex (\<lambda>l. trim l = mainHeader) (split_nl content) = Some idx"
  shows
    "(let lines = split_nl content;
          e = sectionEnd lines idx;
          beforeText = concat (map (\<lambda>l. l @ [NL]) (take idx lines));
          afterText = join_nl (drop e lines);
          sep = (if e < length lines then [NL] else []);
          oldSection = join_nl (slice lines idx e) @ sep;
          newSection = join_nl (rebuildSection (join_nl (slice lines (idx + 1) e)) r a) @ sep
      in content = beforeText @ oldSection @ afterText \<and>
         rebuildMovieNoteContent content r a =
           collapseNewlines beforeText @ collapseNewlines newSection @ collapseNewlines afterText \<and>
         (\<not> includesStr [NL, NL, NL] beforeText \<longrightarrow> collapseNewlines beforeText = beforeText) \<and>
         (\<not> includesStr [NL, NL, NL] afterText \<longrightarrow> collapseNewlines afterText = afterText))"
proof -
  let ?lines = "split_nl content"
  let ?e = "sectionEnd ?lines idx"
  let ?before = "concat (map (\<lambda>l. l @ [NL]) (take idx ?lines))"
  let ?after = "join_nl (drop ?e ?lines)"
  let ?sep = "if ?e < length ?lines then [NL] else []"
  let ?new = "rebuildSection (join_nl (slice ?lines (idx + 1) ?e)) r a"
  from assms have idx: "idx < length ?lines"
    using findIndex_Some by blast
  then have e: "idx < ?e" "?e \<le> length ?lines"
    using sectionEnd_bounds by blast+
  have content: "content = ?before @ (join_nl (slice ?lines idx ?e) @ ?sep) @ ?after"
    using content_parts [OF e] by simp
  obtain rest where new: "?new = mainHeader # rest"
    using rebuildSection_shape by blast
  have after_hd: "?after = [] \<or> hd ?after \<noteq> NL"
  proof (cases "?e < length ?lines")
    case True
    then have h: "isHeading12 (?lines ! ?e)"
      by (rule sectionEnd_heading)
    from True have "drop ?e ?lines = ?lines ! ?e # drop (Suc ?e) ?lines"
      by (simp add: Cons_nth_drop_Suc)
    with isHeading12_hd [OF h] show ?thesis
      by (simp add: hd_join_nl)
  next
    case False
    then show ?thesis by simp
  qed
  have new_hd: "hd (join_nl ?new @ ?sep @ ?after) \<noteq> NL"
    unfolding new by (simp add: join_Cons mainHeader_def)
  have ne: "?new \<noteq> []"
    using new by simp
  have tail: "join_nl (?new @ drop ?e ?lines) = (join_nl ?new @ ?sep) @ ?after"
  proof (cases "?e < length ?lines")
    case True
    then have "drop ?e ?lines \<noteq> []" by simp
    with ne have "join_nl (?new @ drop ?e ?lines) = (join_nl ?new @ [NL]) @ ?after"
      by (rule join_nl_append2)
    with True show ?thesis by simp
  next
    case False
    then show ?thesis by simp
  qed
  have "join_nl (take idx ?lines @ ?new @ drop ?e ?lines) =
      ?before @ join_nl (?new @ drop ?e ?lines)"
    using ne by (intro join_nl_append) simp
  with tail have joined: "join_nl (take idx ?lines @ ?new @ drop ?e ?lines) =
      ?before @ (join_nl ?new @ ?sep) @ ?after"
    by simp
  have "rebuildMovieNoteContent content r a =
      collapseNewlines (join_nl (take idx ?lines @ ?new @ drop ?e ?lines))"
    using assms by (simp add: rebuildMovieNoteContent_def Let_def slice_def)
  also have "\<dots> = collapseNewlines (?before @ (join_nl ?new @ ?sep) @ ?after)"
    by (simp only: joined)
  also have "\<dots> = collapseNewlines ?before @ collapseNewlines ((join_nl ?new @ ?sep) @ ?after)"
    using new_hd by (intro collapseNewlines_append) simp
  also have "collapseNewlines ((join_nl ?new @ ?sep) @ ?after) =
      collapseNewlines (join_nl ?new @ ?sep) @ collapseNewlines ?after"
    using after_hd by (rule collapseNewlines_append)
  finally have out: "rebuildMovieNoteContent content r a =
      collapseNewlines ?before @ collapseNewlines (join_nl ?new @ ?sep) @ collapseNewlines ?after" .
  have c1: "\<not> includesStr [NL, NL, NL] ?before \<longrightarrow> collapseNewlines ?before = ?before"
    using collapseNewlines_no_run by blast
  have c2: "\<not> includesStr [NL, NL, NL] ?after \<longrightarrow> collapseNewlines ?after = ?after"
    using collapseNewlines_no_run by blast
  show ?thesis
    unfolding Let_def using content out c1 c2 by blast
qed

theorem section_isolation_witness:
  "findIndex (\<lambda>l. trim l = mainHeader)
     (split_nl (''intro'' @ [NL] @ ''## Letterboxd'' @ [NL] @ ''### Activity'' @ [NL] @ ''- x'' @
        [NL] @ ''## Other'' @ [NL] @ ''z'')) = Some 1 \<and>
   rebuildMovieNoteContent
     (''intro'' @ [NL] @ ''## Letterboxd'' @ [NL] @ ''### Activity'' @ [NL] @ ''- x'' @
        [NL] @ ''## Other'' @ [NL] @ ''z'') [] ''- y'' =
     ''intro'' @ [NL] @ ''## Letterboxd'' @ [NL, NL] @ ''### Activity'' @ [NL, NL] @ ''- x'' @ [NL] @
     ''- y'' @ [NL, NL] @ ''## Other'' @ [NL] @ ''z''"
proof -
  let ?c = "''intro'' @ [NL] @ ''## Letterboxd'' @ [NL] @ ''### Activity'' @ [NL] @ ''- x'' @
        [NL] @ ''## Other'' @ [NL] @ ''z''"
  have h: "findIndex (\<lambda>l. trim l = mainHeader) (split_nl ?c) = Some 1"
    by code_simp
  have v: "collapseNewlines (concat (map (\<lambda>l. l @ [NL]) (take 1 (split_nl ?c)))) @
      collapseNewlines
        (join_nl (rebuildSection (join_nl (slice (split_nl ?c) (1 + 1) (sectionEnd (split_nl ?c) 1)))
           [] ''- y'') @
         (if sectionEnd (split_nl ?c) 1 < length (split_nl ?c) then [NL] else [])) @
      collapseNewlines (join_nl (drop (sectionEnd (split_nl ?c) 1) (split_nl ?c))) =
      ''intro'' @ [NL] @ ''## Letterboxd'' @ [NL, NL] @ ''### Activity'' @ [NL, NL] @ ''- x'' @ [NL] @
      ''- y'' @ [NL, NL] @ ''## Other'' @ [NL] @ ''z''"
    by code_simp
  from section_isolation [OF h, of "[]" "''- y''"]
  have "rebuildMovieNoteContent ?c [] ''- y'' =
      collapseNewlines (concat (map (\<lambda>l. l @ [NL]) (take 1 (split_nl ?c)))) @
      collapseNewlines
        (join_nl (rebuildSection (join_nl (slice (split_nl ?c) (1 + 1) (sectionEnd (split_nl ?c) 1)))
           [] ''- y'') @
         (if sectionEnd (split_nl ?c) 1 < length (split_nl ?c) then [NL] else [])) @
      collapseNewlines (join_nl (drop (sectionEnd (split_nl ?c) 1) (split_nl ?c)))"
    unfolding Let_def by blast
  with h v show ?thesis
    by (simp only:) 
qed

text \<open>
  The claim as first stated fails where the text before the heading has two blank lines
  in a row: the merge returns it with one.
\<close>


theorem section_isolation_counterexample:
  "findIndex (\<lambda>l. trim l = mainHeader)
     (split_nl (''a'' @ [NL, NL, NL] @ ''b'' @ [NL] @ ''## Letterboxd'')) = Some 4 \<and>
   rebuildMovieNoteContent (''a'' @ [NL, NL, NL] @ ''b'' @ [NL] @ ''## Letterboxd'') [] ''- x'' =
     ''a'' @ [NL, NL] @ ''b'' @ [NL] @ ''## Letterboxd'' @ [NL, NL] @ ''### Activity'' @ [NL, NL] @
     ''- x'' @ [NL] \<and>
   \<not> prefix (''a'' @ [NL, NL, NL] @ ''b'' @ [NL])
     (rebuildMovieNoteContent (''a'' @ [NL, NL, NL] @ ''b'' @ [NL] @ ''## Letterboxd'') [] ''- x'')"
  by code_simp

section \<open>Order of the merged diary\<close>



section \<open>An item without a title or a year\<close>




section \<open>A frontmatter block that never closes\<close>

text \<open>
  Claim C6. A diary text whose first line is the delimiter and which has no second
  delimiter line is read as having no frontmatter: the whole text is the body, the merge
  joins its lines with the new entries, and the lines of the input are the first lines of
  the output (setting \<^verbatim>\<open>Old\<close>) or its last lines (otherwise), none dropped.
\<close>

theorem unclosed_frontmatter_kept:
  assumes "split_nl data = ''---'' # rest" and "''---'' \<notin> set rest"
  shows "fst (parseFrontmatter data) = [] \<and>
         updateDiaryFile so entries (Some data) =
           join_nl (finalEntriesOf so (split_nl data) entries) \<and>
         (if so = ''Old''
          then prefix (split_nl data) (split_nl (updateDiaryFile so entries (Some data)))
          else suffix (split_nl data) (split_nl (updateDiaryFile so entries (Some data))))"
proof -
  have fm: "fst (parseFrontmatter data) = []"
    using assms by (simp add: parseFrontmatter_def)
  then have out: "updateDiaryFile so entries (Some data) =
      join_nl (finalEntriesOf so (split_nl data) entries)"
    by (simp add: updateDiaryFile_def diaryFrontMatter_def diaryProcess_text diaryBody_def)
  have ne: "finalEntriesOf so (split_nl data) entries \<noteq> []"
    by (simp add: finalEntriesOf_def Let_def)
  have "split_nl (updateDiaryFile so entries (Some data)) =
      concat (map split_nl (finalEntriesOf so (split_nl data) entries))"
    using ne by (simp add: out splitc_join_concat)
  then have "split_nl (updateDiaryFile so entries (Some data)) =
      (if so = ''Old''
       then split_nl data @ concat (map split_nl (newEntriesOf (split_nl data) entries))
       else concat (map split_nl (newEntriesOf (split_nl data) entries)) @ split_nl data)"
    by (simp add: finalEntriesOf_def Let_def)
  then have "if so = ''Old''
      then prefix (split_nl data) (split_nl (updateDiaryFile so entries (Some data)))
      else suffix (split_nl data) (split_nl (updateDiaryFile so entries (Some data)))"
    by (auto simp: suffix_def split: if_splits)
  with fm out show ?thesis
    by blast
qed

theorem unclosed_frontmatter_kept_witness:
  "split_nl (''---'' @ [NL] @ ''title: x'' @ [NL] @ ''- old'') = ''---'' # [''title: x'', ''- old''] \<and>
   ''---'' \<notin> set [''title: x'', ''- old''] \<and>
   updateDiaryFile ''Old'' [''- new''] (Some (''---'' @ [NL] @ ''title: x'' @ [NL] @ ''- old'')) =
     ''---'' @ [NL] @ ''title: x'' @ [NL] @ ''- old'' @ [NL] @ ''- new''"
  using unclosed_frontmatter_kept [of "''---'' @ [NL] @ ''title: x'' @ [NL] @ ''- old''"
      "[''title: x'', ''- old'']" "''Old''" "[''- new'']"]
  by (simp add: finalEntriesOf_def newEntriesOf_def)

section \<open>Round trip of the frontmatter\<close>

text \<open>
  Claim C7, as amended. Parsing the serialized form of a mapping gives the mapping back
  when every key is free of colons and line breaks and does not begin like an array item,
  and every scalar and every array element is free of line breaks.
\<close>

theorem frontmatter_round_trip:
  assumes "fmOk obj"
  shows "fst (parseFrontmatter (objToFrontmatter obj)) = obj"
proof -
  let ?ls = "concat (map entryLines obj)"
  have tw: "takeWhile (\<lambda>l. l \<noteq> ''---'') (?ls @ [''---'', []]) = ?ls"
    using fmLines_no_delimiter [OF assms] by (simp add: takeWhile_append)
  have "parseFrontmatter (objToFrontmatter obj) =
      (parseFmLines (takeWhile (\<lambda>l. l \<noteq> ''---'') (?ls @ [''---'', []])),
       tl (dropWhile (\<lambda>l. l \<noteq> ''---'') (?ls @ [''---'', []])))"
    unfolding parseFrontmatter_def objToFrontmatter_lines [OF assms] by simp
  then show ?thesis
    unfolding tw using parseFmLines_entryLines [OF assms] by simp
qed

theorem frontmatter_round_trip_witness:
  "fmOk [(''title'', Scalar ''Heat''), (''tags'', Array [''film'', ''crime''])] \<and>
   fst (parseFrontmatter (objToFrontmatter
     [(''title'', Scalar ''Heat''), (''tags'', Array [''film'', ''crime''])])) =
     [(''title'', Scalar ''Heat''), (''tags'', Array [''film'', ''crime''])]"
proof -
  have ok: "fmOk [(''title'', Scalar ''Heat''), (''tags'', Array [''film'', ''crime''])]"
    by (simp add: fmOk_def fmKeyOk_def isItem_def)
  with frontmatter_round_trip [OF ok] show ?thesis
    by simp
qed

text \<open>
  For every mapping of scalars and string arrays the claim fails: \<open>objToFrontmatter\<close>
  writes keys and values as they are, so a scalar with a line break in it is written as
  the text of two entries, and no parser can tell the two mappings apart. A key with a
  colon in it, and a key that begins like an array item, are read back as something else
  in the same way.
\<close>

theorem frontmatter_round_trip_counterexample:
  "objToFrontmatter [(''a'', Scalar (''b'' @ [NL] @ ''c: d''))] =
     objToFrontmatter [(''a'', Scalar ''b''), (''c'', Scalar ''d'')] \<and>
   fst (parseFrontmatter (objToFrontmatter [(''a'', Scalar (''b'' @ [NL] @ ''c: d''))])) =
     [(''a'', Scalar ''b''), (''c'', Scalar ''d'')] \<and>
   fst (parseFrontmatter (objToFrontmatter [(''a'', Scalar (''b'' @ [NL] @ ''c: d''))])) \<noteq>
     [(''a'', Scalar (''b'' @ [NL] @ ''c: d''))] \<and>
   fst (parseFrontmatter (objToFrontmatter [(''a: b'', Scalar ''c'')])) = [(''a'', Scalar ''b: c'')] \<and>
   fst (parseFrontmatter (objToFrontmatter [(''k'', Array []), (''  - x'', Scalar ''y'')])) =
     [(''k'', Array [''x: y''])]"
  by (simp add: objToFrontmatter_def parseFrontmatter_def isItem_def)

section \<open>Activity lines are not repeated\<close>




section \<open>The date phrase of an entry\<close>

text \<open>
  Claim C9, as amended. The date of an entry is the watched date when the item has one,
  wrapped as a wikilink under the link format when \<open>linkDate\<close> is set and printed under
  the display format otherwise, and the publication date under the display format, never
  wrapped, when it has none. In the variants \<^verbatim>\<open>List\<close> and \<^verbatim>\<open>ListReview\<close> the entry
  reads \<^verbatim>\<open>- Watched <link> <stars> on <date>\<close> in the first case and
  \<^verbatim>\<open>- Marked as watched <link> <stars> on <date>\<close> in the second, followed in
  \<^verbatim>\<open>ListReview\<close> by the quoted review when there is one. In the variants
  \<^verbatim>\<open>Callout\<close> and \<^verbatim>\<open>CalloutPoster\<close> the entry has neither phrase: it is the callout
  marker, a heading, the link, the stars, a dash and the same date, then the review (after
  the poster, in \<^verbatim>\<open>CalloutPoster\<close>, when the description has an image), the reference
  and a line break. The heading is \<^verbatim>\<open>Review: \<close> when the item has a rating or a review
  that is not empty, and \<^verbatim>\<open>Watched: \<close> otherwise, whether or not the item has a
  watched date.
\<close>

theorem date_phrase_rendering:
  assumes "filmTitle item = Str t"
  shows
    "(let lnk = (if truthy il then orEmpty il
                 else ''['' @ decodeHtmlEntities t @ '']('' @ link item @ '')'');
          sts = starParser (memberRating item) (stars settings);
          verb = (if truthy (watchedDate item) then ''Watched'' else ''Marked as watched'');
          date =
            (if truthy (watchedDate item) then
               (if linkDate settings
                then ''[['' @ getFormattedDate host (orEmpty (watchedDate item)) (dateFormat settings) @ '']]''
                else getFormattedDate host (orEmpty (watchedDate item)) (displayDateFormat settings))
             else getFormattedDate host (pubDate item) (displayDateFormat settings));
          hasReview =
            (\<exists>r. extractReview (paragraphTexts host) (description item) = Some r \<and> r \<noteq> []);
          review = orEmpty (reviewTextOf host item);
          heading =
            (if memberRating item \<noteq> None \<or> hasReview then ''Review: '' else ''Watched: '');
          img = imgSrc host (description item)
      in (callout settings = CList \<longrightarrow>
            generateDiaryEntry host settings item il =
              Inr (''- '' @ verb @ '' '' @ lnk @ '' '' @ sts @ '' on '' @ date)) \<and>
         (callout settings = CListReview \<longrightarrow>
            generateDiaryEntry host settings item il =
              Inr (''- '' @ verb @ '' '' @ lnk @ '' '' @ sts @ '' on '' @ date @ '' '' @
                   (if hasReview then [CR] @ '' >'' @ review @ [NL] else []))) \<and>
         (callout settings = CCallout \<longrightarrow>
            generateDiaryEntry host settings item il =
              Inr (''> [!letterboxd]+ '' @ heading @ '' '' @ lnk @ '' '' @ sts @ '' - '' @ date @
                   '' '' @ [CR] @ ''> '' @ (if hasReview then review else []) @
                   referenceOf settings item @ [NL])) \<and>
         (callout settings = CCalloutPoster \<longrightarrow>
            generateDiaryEntry host settings item il =
              Inr (''> [!letterboxd]+ '' @ heading @ '' '' @ lnk @ '' '' @ sts @ '' - '' @ date @
                   '' '' @ [CR] @ ''> '' @
                   (if hasReview then
                      (if truthy img
                       then ''!['' @ decodeHtmlEntities t @ ''|200]('' @ orEmpty img @ '') '' @
                         [CR] @ ''> '' @ review
                       else review)
                    else []) @
                   referenceOf settings item @ [NL])) \<and>
         (hasReview \<longleftrightarrow> truthy (reviewTextOf host item)))"
  unfolding Let_def displayDateOf_cases [symmetric] truthy_reviewTextOf [symmetric]
  using generateDiaryEntry_CList [OF assms, of settings host il]
    generateDiaryEntry_CListReview [OF assms, of settings host il]
    generateDiaryEntry_CCallout [OF assms, of settings host il]
    generateDiaryEntry_CCalloutPoster [OF assms, of settings host il]
  by blast

theorem date_phrase_rendering_witness:
  "filmTitle \<lparr>link = ''url'', guid = ''letterboxd-watch-1'', pubDate = ''2024-01-06'',
        watchedDate = Some ''2024-01-05'', rewatch = ''No'', filmTitle = Str ''Title'',
        filmYear = Some 1999, memberRating = None, description = []\<rparr> = Str ''Title'' \<and>
   generateDiaryEntry
     \<lparr>momentFormat = (\<lambda>d f. d), dateTime = (\<lambda>s. 0), paragraphTexts = (\<lambda>d. []),
        imgSrc = (\<lambda>d. None)\<rparr>
     \<lparr>username = ''u'', dateFormat = ''YYYY-MM-DD'', displayDateFormat = ''YYYY-MM-DD'',
        path = ''Letterboxd Diary'', sort_order = ''Old'', callout = CList, stars = 0,
        addReferenceId = False, linkDate = True, createMovieNotes = False,
        movieNoteTemplate = ''Movies/{{title}}''\<rparr>
     \<lparr>link = ''url'', guid = ''letterboxd-watch-1'', pubDate = ''2024-01-06'',
        watchedDate = Some ''2024-01-05'', rewatch = ''No'', filmTitle = Str ''Title'',
        filmYear = Some 1999, memberRating = None, description = []\<rparr>
     None = Inr ''- Watched [Title](url)  on [[2024-01-05]]'' \<and>
   generateDiaryEntry
     \<lparr>momentFormat = (\<lambda>d f. d), dateTime = (\<lambda>s. 0), paragraphTexts = (\<lambda>d. []),
        imgSrc = (\<lambda>d. None)\<rparr>
     \<lparr>username = ''u'', dateFormat = ''YYYY-MM-DD'', displayDateFormat = ''YYYY-MM-DD'',
        path = ''Letterboxd Diary'', sort_order = ''Old'', callout = CCallout, stars = 0,
        addReferenceId = False, linkDate = True, createMovieNotes = False,
        movieNoteTemplate = ''Movies/{{title}}''\<rparr>
     \<lparr>link = ''url'', guid = ''letterboxd-watch-1'', pubDate = ''2024-01-06'',
        watchedDate = Some ''2024-01-05'', rewatch = ''No'', filmTitle = Str ''Title'',
        filmYear = Some 1999, memberRating = None, description = []\<rparr>
     None = Inr (''> [!letterboxd]+ Watched:  [Title](url)  - [[2024-01-05]] '' @ [CR] @ ''> '' @ [NL])"
  using date_phrase_rendering
    [of "\<lparr>link = ''url'', guid = ''letterboxd-watch-1'', pubDate = ''2024-01-06'',
        watchedDate = Some ''2024-01-05'', rewatch = ''No'', filmTitle = Str ''Title'',
        filmYear = Some 1999, memberRating = None, description = []\<rparr>" "''Title''" None
      "\<lparr>username = ''u'', dateFormat = ''YYYY-MM-DD'', displayDateFormat = ''YYYY-MM-DD'',
        path = ''Letterboxd Diary'', sort_order = ''Old'', callout = CList, stars = 0,
        addReferenceId = False, linkDate = True, createMovieNotes = False,
        movieNoteTemplate = ''Movies/{{title}}''\<rparr>"
      "\<lparr>momentFormat = (\<lambda>d f. d), dateTime = (\<lambda>s. 0), paragraphTexts = (\<lambda>d. []),
        imgSrc = (\<lambda>d. None)\<rparr>"]
    date_phrase_rendering
    [of "\<lparr>link = ''url'', guid = ''letterboxd-watch-1'', pubDate = ''2024-01-06'',
        watchedDate = Some ''2024-01-05'', rewatch = ''No'', filmTitle = Str ''Title'',
        filmYear = Some 1999, memberRating = None, description = []\<rparr>" "''Title''" None
      "\<lparr>username = ''u'', dateFormat = ''YYYY-MM-DD'', displayDateFormat = ''YYYY-MM-DD'',
        path = ''Letterboxd Diary'', sort_order = ''Old'', callout = CCallout, stars = 0,
        addReferenceId = False, linkDate = True, createMovieNotes = False,
        movieNoteTemplate = ''Movies/{{title}}''\<rparr>"
      "\<lparr>momentFormat = (\<lambda>d f. d), dateTime = (\<lambda>s. 0), paragraphTexts = (\<lambda>d. []),
        imgSrc = (\<lambda>d. None)\<rparr>"]
  by (simp add: getFormattedDate_def truthy_def orEmpty_def decodeHtmlEntities_def
      starParser_def extractReview_def reviewTextOf_def referenceOf_def)

text \<open>
  The claim as first stated, that every entry of an item without a watched date says
  \<^verbatim>\<open>Marked as watched\<close>, fails on the \<^verbatim>\<open>Callout\<close> variant: the entry of an item with
  no watched date, no rating and no review is headed \<^verbatim>\<open>Watched: \<close>.
\<close>

theorem date_phrase_callout_counterexample:
  "watchedDate \<lparr>link = ''u'', guid = ''letterboxd-watch-1'', pubDate = ''2024-01-06'',
        watchedDate = None, rewatch = ''No'', filmTitle = Str ''T'', filmYear = Some 1999,
        memberRating = None, description = []\<rparr> = None \<and>
   generateDiaryEntry
     \<lparr>momentFormat = (\<lambda>d f. d), dateTime = (\<lambda>s. 0), paragraphTexts = (\<lambda>d. []),
        imgSrc = (\<lambda>d. None)\<rparr>
     \<lparr>username = ''u'', dateFormat = ''YYYY-MM-DD'', displayDateFormat = ''YYYY-MM-DD'',
        path = ''Letterboxd Diary'', sort_order = ''Old'', callout = CCallout, stars = 0,
        addReferenceId = False, linkDate = True, createMovieNotes = False,
        movieNoteTemplate = ''Movies/{{title}}''\<rparr>
     \<lparr>link = ''u'', guid = ''letterboxd-watch-1'', pubDate = ''2024-01-06'', watchedDate = None,
        rewatch = ''No'', filmTitle = Str ''T'', filmYear = Some 1999, memberRating = None,
        description = []\<rparr>
     None =
     Inr (''> [!letterboxd]+ Watched:  [T](u)  - 2024-01-06 '' @ [CR] @ ''> '' @ [NL]) \<and>
   \<not> includesStr ''Marked as watched''
     (''> [!letterboxd]+ Watched:  [T](u)  - 2024-01-06 '' @ [CR] @ ''> '' @ [NL])"
  by (simp add: generateDiaryEntry_def extractReview_def reviewTextOf_def referenceOf_def displayDateOf_def getFormattedDate_def
      truthy_def orEmpty_def decodeHtmlEntities_def starParser_def)

section \<open>The two extractions of a review\<close>

text \<open>
  Claim C10. When the paragraphs of a description include one that contains the phrase
  \<^verbatim>\<open>Watched on\<close> and one that is not empty and does not contain it, \<open>extractReview\<close>
  returns no review, and \<open>extractReviewBlockquote\<close> returns a blockquote that is not
  empty and is built from exactly the paragraphs that do not contain the phrase, each
  trimmed and quoted. Both functions test a paragraph for emptiness after trimming it, and
  that is the emptiness meant here.
\<close>

theorem review_extraction_asymmetry:
  assumes "\<exists>p\<in>set (pTexts d). includesStr ''Watched on'' p"
    and "\<exists>p\<in>set (pTexts d). trim p \<noteq> [] \<and> \<not> includesStr ''Watched on'' p"
  shows "extractReview pTexts d = None \<and>
         extractReviewBlockquote pTexts d \<noteq> [] \<and>
         extractReviewBlockquote pTexts d =
           join ([NL] @ ''>'' @ [NL])
             (map (\<lambda>p. ''> '' @ trim p)
               (filter (\<lambda>p. trim p \<noteq> [] \<and> \<not> includesStr ''Watched on'' p) (pTexts d)))"
proof -
  let ?kept = "filter (\<lambda>p. trim p \<noteq> [] \<and> \<not> includesStr ''Watched on'' p) (pTexts d)"
  from assms(1) obtain p where p: "p \<in> set (pTexts d)" "includesStr ''Watched on'' p"
    by blast
  from p(2) have "includesStr ''Watched on'' (trim p)"
    by (simp add: includesStr_Watched_trim)
  then have "trim p \<noteq> []" "p \<noteq> []"
    using p(2) by auto
  with p have "includesStr ''Watched on''
      (join [NL, NL] (filter (\<lambda>text. text \<noteq> [] \<and> trim text \<noteq> []) (pTexts d)))"
    by (intro includesStr_join [of p]) auto
  then have none: "extractReview pTexts d = None"
    by (simp add: extractReview_def)
  have kept: "filter (\<lambda>text. text \<noteq> [] \<and> \<not> includesStr ''Watched on'' text)
      (map trim (pTexts d)) = map trim ?kept"
    by (simp add: filter_map comp_def includesStr_Watched_trim)
  from assms(2) have ne: "?kept \<noteq> []"
    by (auto simp: filter_empty_conv)
  have quote: "extractReviewBlockquote pTexts d =
      join ([NL] @ ''>'' @ [NL]) (map (\<lambda>p. ''> '' @ trim p) ?kept)"
    using ne by (simp add: extractReviewBlockquote_def Let_def kept comp_def)
  have "join ([NL] @ ''>'' @ [NL]) (map (\<lambda>p. ''> '' @ trim p) ?kept) \<noteq> []"
    using ne by (intro join_eq_Nil_hd) (auto simp: hd_map)
  with none quote show ?thesis
    by simp
qed

theorem review_extraction_asymmetry_witness:
  "(\<exists>p\<in>set [''Watched on Monday 1 January, 2024.'', '' Great film. '']. includesStr ''Watched on'' p) \<and>
   (\<exists>p\<in>set [''Watched on Monday 1 January, 2024.'', '' Great film. ''].
       trim p \<noteq> [] \<and> \<not> includesStr ''Watched on'' p) \<and>
   extractReview (\<lambda>d. [''Watched on Monday 1 January, 2024.'', '' Great film. '']) [] = None \<and>
   extractReviewBlockquote (\<lambda>d. [''Watched on Monday 1 January, 2024.'', '' Great film. '']) [] =
     ''> Great film.''"
proof -
  have t: "trim '' Great film. '' = ''Great film.''"
    by (simp add: trim_def trimStart.simps trimEnd.simps wsPrefix_def wsSuffix_def ws_seqs_def
        suffix_def)
  have w: "trim ''Watched on Monday 1 January, 2024.'' = ''Watched on Monday 1 January, 2024.''"
    by (simp add: trim_def trimStart.simps trimEnd.simps wsPrefix_def wsSuffix_def ws_seqs_def
        suffix_def)
  have h1: "\<exists>p\<in>set [''Watched on Monday 1 January, 2024.'', '' Great film. ''].
      includesStr ''Watched on'' p"
    by simp
  have h2: "\<exists>p\<in>set [''Watched on Monday 1 January, 2024.'', '' Great film. ''].
      trim p \<noteq> [] \<and> \<not> includesStr ''Watched on'' p"
    by (simp add: t)
  show ?thesis
    using review_extraction_asymmetry
      [of "\<lambda>d. [''Watched on Monday 1 January, 2024.'', '' Great film. '']" "[]", OF h1 h2] h1 h2
    by (simp add: t w)
qed

section \<open>A second diary merge of entries without line breaks\<close>

text \<open>
  When no entry of the batch contains a line break and none is the frontmatter delimiter,
  as for the \<^verbatim>\<open>List\<close> variant, merging the batch a second time into the diary that the
  first merge wrote returns that diary unchanged, whether the diary existed before or not
  and whatever its frontmatter.
\<close>

theorem diary_merge_idempotent:
  assumes "\<forall>e\<in>set entries. NL \<notin> set e \<and> e \<noteq> ''---''"
  shows "updateDiaryFile so entries (Some (updateDiaryFile so entries diaryFile)) =
     updateDiaryFile so entries diaryFile"
  using assms by (rule diary_second_run)

theorem diary_merge_idempotent_witness:
  "NL \<notin> set ''- Watched B on 2024-01-02'' \<and> ''- Watched B on 2024-01-02'' \<noteq> ''---'' \<and>
   updateDiaryFile ''Old'' [''- Watched B on 2024-01-02'']
     (Some (''---'' @ [NL] @ ''title: Diary'' @ [NL] @ ''---'' @ [NL] @ ''- Watched A on 2024-01-01'')) =
     ''---'' @ [NL] @ ''title: Diary'' @ [NL] @ ''---'' @ [NL] @ ''- Watched A on 2024-01-01'' @ [NL] @
     ''- Watched B on 2024-01-02'' \<and>
   updateDiaryFile ''Old'' [''- Watched B on 2024-01-02'']
     (Some (updateDiaryFile ''Old'' [''- Watched B on 2024-01-02'']
       (Some (''---'' @ [NL] @ ''title: Diary'' @ [NL] @ ''---'' @ [NL] @
          ''- Watched A on 2024-01-01'')))) =
     ''---'' @ [NL] @ ''title: Diary'' @ [NL] @ ''---'' @ [NL] @ ''- Watched A on 2024-01-01'' @ [NL] @
     ''- Watched B on 2024-01-02''"
proof -
  have h: "\<forall>e\<in>set [''- Watched B on 2024-01-02'']. NL \<notin> set e \<and> e \<noteq> ''---''"
    by simp
  have v: "updateDiaryFile ''Old'' [''- Watched B on 2024-01-02'']
     (Some (''---'' @ [NL] @ ''title: Diary'' @ [NL] @ ''---'' @ [NL] @ ''- Watched A on 2024-01-01'')) =
     ''---'' @ [NL] @ ''title: Diary'' @ [NL] @ ''---'' @ [NL] @ ''- Watched A on 2024-01-01'' @ [NL] @
     ''- Watched B on 2024-01-02''"
    by code_simp
  from diary_merge_idempotent [OF h, of "''Old''"
      "Some (''---'' @ [NL] @ ''title: Diary'' @ [NL] @ ''---'' @ [NL] @ ''- Watched A on 2024-01-01'')"]
    v show ?thesis
    by simp
qed

section \<open>Spacing of a merged note\<close>

text \<open>
  A note that has the managed heading leaves the merge without any run of three or more
  line breaks, in the section and outside it: the last step of the merge shortens every
  such run to two.
\<close>

theorem merged_note_spacing:
  assumes "findIndex (\<lambda>l. trim l = mainHeader) (split_nl content) = Some idx"
  shows "\<not> includesStr [NL, NL, NL] (rebuildMovieNoteContent content r a)"
  unfolding rebuild_with_heading [OF assms] collapseNewlines_def includesStr_sublist
  by (rule collapseRun_no_run3)

theorem merged_note_spacing_witness:
  "findIndex (\<lambda>l. trim l = mainHeader)
     (split_nl (''a'' @ [NL, NL, NL] @ ''b'' @ [NL] @ ''## Letterboxd'')) = Some 4 \<and>
   includesStr [NL, NL, NL] (''a'' @ [NL, NL, NL] @ ''b'' @ [NL] @ ''## Letterboxd'') \<and>
   \<not> includesStr [NL, NL, NL]
     (rebuildMovieNoteContent (''a'' @ [NL, NL, NL] @ ''b'' @ [NL] @ ''## Letterboxd'') [] ''- x'')"
proof -
  have h: "findIndex (\<lambda>l. trim l = mainHeader)
     (split_nl (''a'' @ [NL, NL, NL] @ ''b'' @ [NL] @ ''## Letterboxd'')) = Some 4"
    by code_simp
  have i: "includesStr [NL, NL, NL] (''a'' @ [NL, NL, NL] @ ''b'' @ [NL] @ ''## Letterboxd'')"
    by code_simp
  from merged_note_spacing [OF h, of "[]" "''- x''"] h i show ?thesis
    by blast
qed

end
